theory Spec2Isabelle
  imports Main "HOL-Library.Multiset"
begin

section \<open>Strings\<close>

text \<open>
  A JavaScript string is modelled as a HOL string (the bytes of its UTF-8 text); it is
  truthy exactly when it is not empty. The program compares strings, joins them, and
  calls two built-in methods on them, \<^verbatim>\<open>String.prototype.trim\<close> and
  \<^verbatim>\<open>String.prototype.toLowerCase\<close>. The two methods are no code of the program: they
  are the fields of a parameter \<open>js\<close> of every function that reaches them, and what is
  proved about such a function holds whatever the two methods do with a string.
\<close>

record builtins =
  trim :: "string \<Rightarrow> string"
  toLowerCase :: "string \<Rightarrow> string"

definition truthy :: "string \<Rightarrow> bool" where
  "truthy s = (s \<noteq> [])"

section \<open>JavaScript objects used as dictionaries\<close>

text \<open>
  An object is the list of its own properties in the order \<^verbatim>\<open>Object.keys\<close> lists them:
  array-index keys (canonical decimal numerals below \<open>2^32 - 1\<close>) in ascending numeric
  order first, every other key in the order of its creation after them. Assigning to an
  existing key keeps its place. An assignment to the name \<^verbatim>\<open>__proto__\<close> creates no
  property: it runs the setter that \<^verbatim>\<open>Object.prototype\<close> has under that name, which
  ignores a string and makes an object the prototype of the receiver. Only own properties
  are modelled. They are all that \<^verbatim>\<open>Object.keys\<close> and \<^verbatim>\<open>JSON.stringify\<close> see, and the
  program reads no other property with effect: \<^verbatim>\<open>table[concept.code]\<close>, read right after
  the assignment to it, is the record just assigned (own property or prototype), and an
  inherited value read through \<^verbatim>\<open>?.en\<close> or \<^verbatim>\<open>?.fr\<close> at a key of a resolved mapping has
  neither field.
\<close>

type_synonym 'v obj = "(string \<times> 'v) list"

definition is_digit :: "char \<Rightarrow> bool" where
  "is_digit c = (48 \<le> (of_char c :: nat) \<and> (of_char c :: nat) \<le> 57)"

definition digits_value :: "string \<Rightarrow> int" where
  "digits_value s = foldl (\<lambda>n c. 10 * n + ((of_char c :: int) - 48)) 0 s"

definition is_array_index :: "string \<Rightarrow> bool" where
  "is_array_index s =
     (case s of
        [] \<Rightarrow> False
      | c # cs \<Rightarrow> list_all is_digit s \<and> (if c = CHR ''0'' then cs = [] else True)
                   \<and> digits_value s < 4294967295)"

definition obj_keys :: "'v obj \<Rightarrow> string list" where
  "obj_keys ob = map fst ob"

definition obj_get :: "'v obj \<Rightarrow> string \<Rightarrow> 'v option" where
  "obj_get ob k = map_of ob k"

fun obj_overwrite :: "string \<Rightarrow> 'v \<Rightarrow> 'v obj \<Rightarrow> 'v obj" where
  "obj_overwrite k v [] = []"
| "obj_overwrite k v (p # ps) = (if fst p = k then (k, v) # ps else p # obj_overwrite k v ps)"

fun obj_insert_index :: "string \<Rightarrow> 'v \<Rightarrow> 'v obj \<Rightarrow> 'v obj" where
  "obj_insert_index k v [] = [(k, v)]"
| "obj_insert_index k v (p # ps) =
     (if is_array_index (fst p) \<and> digits_value (fst p) < digits_value k
      then p # obj_insert_index k v ps
      else (k, v) # p # ps)"

text \<open>The creation or update of an own property.\<close>

definition obj_put :: "'v obj \<Rightarrow> string \<Rightarrow> 'v \<Rightarrow> 'v obj" where
  "obj_put ob k v =
     (if k \<in> set (obj_keys ob) then obj_overwrite k v ob
      else if is_array_index k then obj_insert_index k v ob
      else ob @ [(k, v)])"

text \<open>The assignment \<^verbatim>\<open>ob[k] = v\<close> to a plain object.\<close>

definition obj_set :: "'v obj \<Rightarrow> string \<Rightarrow> 'v \<Rightarrow> 'v obj" where
  "obj_set ob k v = (if k = ''__proto__'' then ob else obj_put ob k v)"

section \<open>The data model of \<^verbatim>\<open>app.ts\<close>\<close>

text \<open>
  A field the code reads from the fetched JSON where an array, an object or a string is
  expected: \<open>Absent\<close> is a missing field (\<^verbatim>\<open>undefined\<close>), \<open>Malformed t\<close> is a value of
  another shape (\<^verbatim>\<open>null\<close>, a number, a string, an object where an array is expected, ...),
  \<open>t\<close> being its truthiness, and \<open>Present x\<close> is a value of the expected shape. An
  element of an \<^verbatim>\<open>extension\<close> or a \<^verbatim>\<open>coding\<close> array is \<open>None\<close> when it is \<^verbatim>\<open>null\<close>, and
  \<open>Some x\<close> when it is an object. (An element of an \<^verbatim>\<open>extension\<close> array that is a number,
  a string, a boolean or an array has none of the fields the code reads, and is the
  Extension without them.) The other fields are typed as the interfaces of \<^verbatim>\<open>app.ts\<close>
  declare them: the code and the display of a Coding are strings, and the elements of
  the other arrays are objects of the declared type. \<^verbatim>\<open>designation\<close> and \<^verbatim>\<open>use\<close> are read
  through \<^verbatim>\<open>?.\<close> only, and are \<open>None\<close> when missing.
\<close>

datatype 'a jsfield = Absent | Malformed bool | Present 'a

datatype error = TypeError | IOError | SyntaxError | HttpError

datatype Coding =
  Coding (coding_system: string) (coding_code: string) (coding_display: string)

datatype ValueCodeableConcept =
  ValueCodeableConcept (vcc_coding: "Coding option list jsfield") (vcc_text: string)

datatype Extension =
  Extension (ext_url: "string jsfield")
            (ext_extension: "Extension option list jsfield")
            (ext_valueCodeableConcept: "ValueCodeableConcept jsfield")

datatype Use = Use (use_system: string) (use_code: string) (use_display: string)

datatype Designation =
  Designation (desig_language: string) (desig_use: "Use option") (desig_value: string)

datatype Concept =
  Concept (concept_code: string)
          (concept_display: string)
          (concept_designation: "Designation list option")
          (concept_extension: "Extension option list jsfield")

section \<open>The extension resolver\<close>

text \<open>
  The test of line 112:
  \<^verbatim>\<open>extension.url && extension.url.trim().toLowerCase() === targetUrl.trim().toLowerCase()\<close>.
  A falsy \<^verbatim>\<open>url\<close> ends it; a truthy \<^verbatim>\<open>url\<close> that is not a string has no method \<^verbatim>\<open>trim\<close>,
  and calling it throws a TypeError.
\<close>

definition url_matches :: "builtins \<Rightarrow> string \<Rightarrow> Extension \<Rightarrow> error + bool" where
  "url_matches js targetUrl e =
     (case ext_url e of
        Present url \<Rightarrow>
          Inr (truthy url
               \<and> toLowerCase js (trim js url) = toLowerCase js (trim js targetUrl))
      | Malformed t \<Rightarrow> if t then Inl TypeError else Inr False
      | Absent \<Rightarrow> Inr False)"

text \<open>
  The inner function \<^verbatim>\<open>findExtensions\<close>: the \<^verbatim>\<open>forEach\<close> loop over \<open>extensions\<close> with
  its accumulator \<open>result\<close>. Reading \<^verbatim>\<open>extension.url\<close> of an element that is \<^verbatim>\<open>null\<close>
  throws a TypeError. A matching node is pushed; then, when the node's own \<^verbatim>\<open>extension\<close>
  is an array, the matches found below it are appended.
\<close>

fun findExtensions_loop :: "builtins \<Rightarrow> string \<Rightarrow> Extension option list \<Rightarrow> Extension list \<Rightarrow> error + Extension list" where
  "findExtensions_loop js targetUrl [] result = Inr result"
| "findExtensions_loop js targetUrl (None # rest) result = Inl TypeError"
| "findExtensions_loop js targetUrl (Some (Extension u (Present children) v) # rest) result =
     (case url_matches js targetUrl (Extension u (Present children) v) of
        Inl e \<Rightarrow> Inl e
      | Inr m \<Rightarrow>
          (let result1 = (if m then result @ [Extension u (Present children) v] else result)
           in case findExtensions_loop js targetUrl children [] of
                Inl e \<Rightarrow> Inl e
              | Inr below \<Rightarrow> findExtensions_loop js targetUrl rest (result1 @ below)))"
| "findExtensions_loop js targetUrl (Some (Extension u Absent v) # rest) result =
     (case url_matches js targetUrl (Extension u Absent v) of
        Inl e \<Rightarrow> Inl e
      | Inr m \<Rightarrow>
          (let result1 = (if m then result @ [Extension u Absent v] else result)
           in findExtensions_loop js targetUrl rest result1))"
| "findExtensions_loop js targetUrl (Some (Extension u (Malformed t) v) # rest) result =
     (case url_matches js targetUrl (Extension u (Malformed t) v) of
        Inl e \<Rightarrow> Inl e
      | Inr m \<Rightarrow>
          (let result1 = (if m then result @ [Extension u (Malformed t) v] else result)
           in findExtensions_loop js targetUrl rest result1))"

definition findExtensions :: "builtins \<Rightarrow> string \<Rightarrow> Extension option list \<Rightarrow> error + Extension list" where
  "findExtensions js targetUrl extensions = findExtensions_loop js targetUrl extensions []"

text \<open>A \<^verbatim>\<open>forEach\<close> whose body may throw: the first exception ends the loop.\<close>

fun forEach :: "('a \<Rightarrow> 's \<Rightarrow> error + 's) \<Rightarrow> 'a list \<Rightarrow> 's \<Rightarrow> error + 's" where
  "forEach f [] s = Inr s"
| "forEach f (x # xs) s = (case f x s of Inl e \<Rightarrow> Inl e | Inr s' \<Rightarrow> forEach f xs s')"

text \<open>
  Lines 126 to 133: \<^verbatim>\<open>ext.valueCodeableConcept?.coding\<close> is \<^verbatim>\<open>undefined\<close> unless the
  coded value is an object; a falsy \<open>coding\<close> is skipped; a truthy \<open>coding\<close> that is not
  an array has no \<^verbatim>\<open>forEach\<close>, and calling it throws a TypeError. So does reading
  \<^verbatim>\<open>c.code\<close> of an element that is \<^verbatim>\<open>null\<close>.
\<close>

definition assign_coding :: "Coding option \<Rightarrow> string obj \<Rightarrow> error + string obj" where
  "assign_coding c valObject =
     (case c of
        None \<Rightarrow> Inl TypeError
      | Some c \<Rightarrow> Inr (obj_set valObject (coding_code c) (coding_display c)))"

definition collect_codings :: "Extension \<Rightarrow> string obj \<Rightarrow> error + string obj" where
  "collect_codings ext valObject =
     (case ext_valueCodeableConcept ext of
        Present vcc \<Rightarrow>
          (case vcc_coding vcc of
             Present coding \<Rightarrow> forEach assign_coding coding valObject
           | Malformed t \<Rightarrow> if t then Inl TypeError else Inr valObject
           | Absent \<Rightarrow> Inr valObject)
      | _ \<Rightarrow> Inr valObject)"

text \<open>
  \<^verbatim>\<open>getExtensionValueByUrl\<close> (the same text in both variants).
  \<^verbatim>\<open>findExtensions(concept.extension)\<close> calls \<^verbatim>\<open>forEach\<close> on the field without a test:
  a missing field or a value that is not an array throws a TypeError.
\<close>

definition getExtensionValueByUrl :: "builtins \<Rightarrow> Concept \<Rightarrow> string \<Rightarrow> error + string obj list" where
  "getExtensionValueByUrl js concept targetUrl =
     (case concept_extension concept of
        Present exts \<Rightarrow>
          (case findExtensions js targetUrl exts of
             Inl e \<Rightarrow> Inl e
           | Inr extensions \<Rightarrow>
               (case forEach collect_codings extensions [] of
                  Inl e \<Rightarrow> Inl e
                | Inr valObject \<Rightarrow>
                    Inr (if length (obj_keys valObject) > 0 then [valObject] else [])))
      | _ \<Rightarrow> Inl TypeError)"

section \<open>The rest of the data model\<close>

text \<open>
  \<open>include_concept\<close>, \<open>compose_include\<close> and \<open>vs_compose\<close> are tested by the flattener
  before use (\<^verbatim>\<open>Array.isArray\<close>, \<^verbatim>\<open>resource.compose &&\<close>), so they are fields that may be
  absent or malformed. The version identifier of \<^verbatim>\<open>meta\<close> is the only part of it the
  program reads.
\<close>

datatype Include =
  Include (include_system: string) (include_version: string)
          (include_concept: "Concept list jsfield")

datatype Compose = Compose (compose_include: "Include list jsfield")

datatype ValueSet = ValueSet (vs_id: string) (vs_compose: "Compose jsfield")

datatype Entry = Entry (entry_fullUrl: string) (entry_resource: ValueSet)

datatype Data = Data (data_versionId: string) (data_entry: "Entry list")

text \<open>The values of the output records: a string, or an array of code-to-name objects.\<close>

datatype jsvalue = JStr string | JObjs "string obj list"

type_synonym table_entry = "jsvalue obj"

type_synonym lookup_table = "table_entry obj"

text \<open>An entry of the auxiliary lookups: \<^verbatim>\<open>{ en, fr }\<close>.\<close>

datatype Names = Names (names_en: string) (names_fr: string)

section \<open>Recognised resources\<close>

definition isValueSet :: "string \<Rightarrow> bool" where
  "isValueSet ident = (ident \<in> set [''Generic'', ''Tradename'', ''AntigenIgAntitoxin''])"

definition isValueSetDisease :: "string \<Rightarrow> bool" where
  "isValueSetDisease ident = (ident \<in> set [''Disease''])"

definition isValueSetMAH :: "string \<Rightarrow> bool" where
  "isValueSetMAH ident = (ident \<in> set [''MarketAuthorizationHolder''])"

section \<open>Display names\<close>

definition naming_system :: string where
  "naming_system = ''https://nvc-cnv.canada.ca/v1/NamingSystem/nvc-display-terms-designation''"

text \<open>The predicate of \<^verbatim>\<open>find\<close> in \<^verbatim>\<open>getDisplayName\<close>; \<^verbatim>\<open>d.use?.code\<close> is \<^verbatim>\<open>undefined\<close>
  without a \<^verbatim>\<open>use\<close>, and equal to no string.\<close>

definition designation_matches :: "string \<Rightarrow> string \<Rightarrow> Designation \<Rightarrow> bool" where
  "designation_matches lang code d =
     (desig_language d = lang
      \<and> (case desig_use d of None \<Rightarrow> False | Some u \<Rightarrow> use_code u = code)
      \<and> (case desig_use d of None \<Rightarrow> False | Some u \<Rightarrow> use_system u = naming_system))"

text \<open>\<^verbatim>\<open>getDisplayName\<close>: \<^verbatim>\<open>undefined\<close> (here \<open>None\<close>) without designations or without
  a match, else the value of the first match.\<close>

definition getDisplayName :: "Concept \<Rightarrow> string \<Rightarrow> string \<Rightarrow> string option" where
  "getDisplayName concept lang code =
     (case concept_designation concept of
        None \<Rightarrow> None
      | Some ds \<Rightarrow> map_option desig_value (find (designation_matches lang code) ds))"

text \<open>\<^verbatim>\<open>a || b\<close> for a string or \<^verbatim>\<open>undefined\<close> on the left: \<open>b\<close> when \<open>a\<close> is
  \<^verbatim>\<open>undefined\<close> or the empty string.\<close>

definition or_else :: "string option \<Rightarrow> string \<Rightarrow> string" where
  "or_else a b = (case a of None \<Rightarrow> b | Some s \<Rightarrow> if truthy s then s else b)"

text \<open>Lines 155 and 156: \<^verbatim>\<open>getDisplayName(concept, lang, code) || concept.display\<close>, called
  with \<^verbatim>\<open>'en', 'enDisplayTerm'\<close> and with \<^verbatim>\<open>'fr', 'frDisplayTerm'\<close>.\<close>

definition display_selection :: "Concept \<Rightarrow> string \<Rightarrow> string \<Rightarrow> string" where
  "display_selection concept lang code =
     or_else (getDisplayName concept lang code) (concept_display concept)"

definition displayEN_of :: "Concept \<Rightarrow> string" where
  "displayEN_of concept = display_selection concept ''en'' ''enDisplayTerm''"

definition displayFR_of :: "Concept \<Rightarrow> string" where
  "displayFR_of concept = display_selection concept ''fr'' ''frDisplayTerm''"

section \<open>The flattener, bilingual variant (\<^verbatim>\<open>app.ts\<close>)\<close>

definition disease_url :: "string \<Rightarrow> string" where
  "disease_url api = api @ ''/v1/StructureDefinition/nvc-protects-against-disease''"

definition mah_url :: "string \<Rightarrow> string" where
  "mah_url api = api @ ''/v1/StructureDefinition/nvc-linked-to-market-authorization-holder''"

text \<open>Lines 167 to 173: one single-key object per code of the resolved disease mapping,
  \<^verbatim>\<open>diseaseLookup[code]?.en || code\<close>.\<close>

definition disease_names :: "(Names \<Rightarrow> string) \<Rightarrow> Names obj \<Rightarrow> string obj list \<Rightarrow> string obj list" where
  "disease_names lang diseaseLookup disease =
     (case disease of
        [] \<Rightarrow> []
      | d0 # _ \<Rightarrow>
          map (\<lambda>code. [(code, or_else (map_option lang (obj_get diseaseLookup code)) code)])
              (obj_keys d0))"

text \<open>Lines 176 to 184: \<^verbatim>\<open>mahLookup[codes[0]]?.en || MAH[0][codes[0]]\<close>, the empty
  string when the MAH extension did not resolve.\<close>

definition mah_name :: "(Names \<Rightarrow> string) \<Rightarrow> Names obj \<Rightarrow> string obj list \<Rightarrow> string" where
  "mah_name lang mahLookup MAH =
     (case MAH of
        [] \<Rightarrow> []
      | m0 # _ \<Rightarrow>
          (case obj_keys m0 of
             [] \<Rightarrow> []
           | code0 # _ \<Rightarrow>
               or_else (map_option lang (obj_get mahLookup code0))
                       (case obj_get m0 code0 of None \<Rightarrow> [] | Some d \<Rightarrow> d)))"

text \<open>
  The body of the innermost loop, lines 155 to 198. The record is stored under the
  Concept's code with its four fields; \<^verbatim>\<open>MAHEN\<close> and \<^verbatim>\<open>MAHFR\<close> are added to the stored
  record when both are truthy.
\<close>

definition parse_concept :: "builtins \<Rightarrow> string \<Rightarrow> Names obj \<Rightarrow> Names obj \<Rightarrow> Concept \<Rightarrow> lookup_table \<Rightarrow> error + lookup_table" where
  "parse_concept js api diseaseLookup mahLookup concept table =
     (let displayEN = displayEN_of concept;
          displayFR = displayFR_of concept
      in case getExtensionValueByUrl js concept (disease_url api) of
           Inl e \<Rightarrow> Inl e
         | Inr disease \<Rightarrow>
             (case getExtensionValueByUrl js concept (mah_url api) of
                Inl e \<Rightarrow> Inl e
              | Inr MAH \<Rightarrow>
                  (let diseaseEN = disease_names names_en diseaseLookup disease;
                       diseaseFR = disease_names names_fr diseaseLookup disease;
                       MAHEN = mah_name names_en mahLookup MAH;
                       MAHFR = mah_name names_fr mahLookup MAH;
                       entry = [(''displayEN'', JStr displayEN), (''displayFR'', JStr displayFR),
                                (''diseaseEN'', JObjs diseaseEN), (''diseaseFR'', JObjs diseaseFR)];
                       table1 = obj_set table (concept_code concept) entry
                   in Inr (if truthy MAHEN \<and> truthy MAHFR
                           then obj_set table1 (concept_code concept)
                                  (obj_set (obj_set entry ''MAHEN'' (JStr MAHEN)) ''MAHFR'' (JStr MAHFR))
                           else table1))))"

text \<open>The three outer loops, lines 148 to 204 (and 123 to 153 of the simpler variant),
  over the body \<open>f\<close> of the innermost one.\<close>

definition parse_include :: "(Concept \<Rightarrow> lookup_table \<Rightarrow> error + lookup_table) \<Rightarrow> Include \<Rightarrow> lookup_table \<Rightarrow> error + lookup_table" where
  "parse_include f inc table =
     (case include_concept inc of
        Present concepts \<Rightarrow> forEach f concepts table
      | _ \<Rightarrow> Inr table)"

definition parse_entry :: "(Concept \<Rightarrow> lookup_table \<Rightarrow> error + lookup_table) \<Rightarrow> Entry \<Rightarrow> lookup_table \<Rightarrow> error + lookup_table" where
  "parse_entry f entry table =
     (let resource = entry_resource entry
      in if isValueSet (vs_id resource)
         then (case vs_compose resource of
                 Present compose \<Rightarrow>
                   (case compose_include compose of
                      Present includes \<Rightarrow> forEach (parse_include f) includes table
                    | _ \<Rightarrow> Inr table)
               | _ \<Rightarrow> Inr table)
         else Inr table)"

definition parseNVCBundle :: "builtins \<Rightarrow> string \<Rightarrow> Data \<Rightarrow> Names obj \<Rightarrow> Names obj \<Rightarrow> error + lookup_table" where
  "parseNVCBundle js api data diseaseLookup mahLookup =
     forEach (parse_entry (parse_concept js api diseaseLookup mahLookup)) (data_entry data) []"

section \<open>The flattener, simpler variant\<close>

text \<open>
  Lines 133 to 147 of the simpler variant: the record is stored with \<^verbatim>\<open>displayName\<close>;
  \<^verbatim>\<open>disease\<close> and \<^verbatim>\<open>MAH\<close> are added to the stored record when the resolved sequence is
  not empty.
\<close>

definition simple_api :: string where
  "simple_api = ''https://nvc-cnv.canada.ca''"

definition parse_concept_simple :: "builtins \<Rightarrow> Concept \<Rightarrow> lookup_table \<Rightarrow> error + lookup_table" where
  "parse_concept_simple js concept table =
     (let displayName = concept_display concept
      in case getExtensionValueByUrl js concept (disease_url simple_api) of
           Inl e \<Rightarrow> Inl e
         | Inr disease \<Rightarrow>
             (case getExtensionValueByUrl js concept (mah_url simple_api) of
                Inl e \<Rightarrow> Inl e
              | Inr MAH \<Rightarrow>
                  (let entry = [(''displayName'', JStr displayName)];
                       table1 = obj_set table (concept_code concept) entry;
                       entry1 = (if length disease > 0
                                 then obj_set entry ''disease'' (JObjs disease) else entry);
                       entry2 = (if length MAH > 0
                                 then obj_set entry1 ''MAH'' (JObjs MAH) else entry1)
                   in Inr (obj_set table1 (concept_code concept) entry2))))"

definition parseNVCBundle_simple :: "builtins \<Rightarrow> Data \<Rightarrow> error + lookup_table" where
  "parseNVCBundle_simple js data = forEach (parse_entry (parse_concept_simple js)) (data_entry data) []"

section \<open>The files and the console of a run\<close>

text \<open>
  What a read of a JSON file finds: no file, text that \<^verbatim>\<open>JSON.parse\<close> rejects, or the JSON
  text of a value. The four files of the program are the fields of \<open>files\<close>:
  \<^verbatim>\<open>vaccine-table/disease.json\<close> and \<^verbatim>\<open>vaccine-table/mah.json\<close> hold the value of a
  \<^verbatim>\<open>compose\<close> field, \<^verbatim>\<open>vaccine-table/nvc-bundle.json\<close> holds a version and a table,
  \<^verbatim>\<open>nvc-version.json\<close> holds an object whose \<^verbatim>\<open>versionId\<close> is a string or is not
  (\<open>None\<close>). A write is taken to succeed.
\<close>

datatype 'a stored = Missing | Unparseable | Stored 'a

record files =
  disease_json :: "Compose jsfield stored"
  mah_json :: "Compose jsfield stored"
  nvc_bundle_json :: "(string \<times> lookup_table) stored"
  nvc_version_json :: "string option stored"

datatype event =
    Wrote string
  | ReceivedResourceIds "string list"
  | NoPreviousVersion
  | SuccessfullyUpdated string
  | NoChange string
  | ErrorReadingMAH error
  | ErrorMessage error

definition disease_path :: string where
  "disease_path = ''vaccine-table/disease.json''"

definition mah_path :: string where
  "mah_path = ''vaccine-table/mah.json''"

definition bundle_path :: string where
  "bundle_path = ''vaccine-table/nvc-bundle.json''"

definition version_path :: string where
  "version_path = ''nvc-version.json''"

section \<open>The run of the bilingual variant (\<^verbatim>\<open>main\<close> of \<^verbatim>\<open>app.ts\<close>)\<close>

text \<open>Lines 218 to 227: the loop keeps the last entry of the kind.\<close>

definition find_resource :: "(string \<Rightarrow> bool) \<Rightarrow> Entry list \<Rightarrow> ValueSet option" where
  "find_resource is_kind entries =
     fold (\<lambda>entry found. if is_kind (vs_id (entry_resource entry))
                          then Some (entry_resource entry) else found)
          entries None"

text \<open>\<^verbatim>\<open>JSON.stringify(resource.compose, null, 2)\<close> as the data of \<^verbatim>\<open>fs.writeFile\<close>: of a
  missing \<^verbatim>\<open>compose\<close> it is \<^verbatim>\<open>undefined\<close>, which \<^verbatim>\<open>writeFile\<close> rejects with a TypeError.\<close>

definition compose_text :: "ValueSet \<Rightarrow> error + Compose jsfield stored" where
  "compose_text resource =
     (case vs_compose resource of Absent \<Rightarrow> Inl TypeError | c \<Rightarrow> Inr (Stored c))"

text \<open>Lines 229 to 245.\<close>

definition write_resources :: "ValueSet option \<Rightarrow> ValueSet option \<Rightarrow> files \<times> event list \<Rightarrow> files \<times> event list \<times> error option" where
  "write_resources diseaseResource mahResource run =
     (let (fs, log) = run
      in case (case diseaseResource of
                 None \<Rightarrow> Inr (fs, log)
               | Some resource \<Rightarrow>
                   (case compose_text resource of
                      Inl e \<Rightarrow> Inl e
                    | Inr text \<Rightarrow> Inr (fs\<lparr>disease_json := text\<rparr>, log @ [Wrote disease_path]))) of
           Inl e \<Rightarrow> (fs, log, Some e)
         | Inr (fs1, log1) \<Rightarrow>
             (case mahResource of
                None \<Rightarrow> (fs1, log1, None)
              | Some resource \<Rightarrow>
                  (case compose_text resource of
                     Inl e \<Rightarrow> (fs1, log1, Some e)
                   | Inr text \<Rightarrow> (fs1\<lparr>mah_json := text\<rparr>, log1 @ [Wrote mah_path], None))))"

text \<open>
  Lines 248 to 270 (and 276 to 297 for the MAH file): read and parse the file, then for
  every Concept of every Include store its English and French names under its code. The
  selection of a name is that of \<^verbatim>\<open>getDisplayName(...) || concept.display\<close>. Neither
  \<^verbatim>\<open>include\<close> nor \<^verbatim>\<open>concept\<close> is tested before \<^verbatim>\<open>forEach\<close>.
\<close>

definition lookup_concept :: "Concept \<Rightarrow> Names obj \<Rightarrow> error + Names obj" where
  "lookup_concept concept lookup =
     Inr (obj_set lookup (concept_code concept)
            (Names (display_selection concept ''en'' ''enDisplayTerm'')
                   (display_selection concept ''fr'' ''frDisplayTerm'')))"

definition lookup_include :: "Include \<Rightarrow> Names obj \<Rightarrow> error + Names obj" where
  "lookup_include inc lookup =
     (case include_concept inc of
        Present concepts \<Rightarrow> forEach lookup_concept concepts lookup
      | _ \<Rightarrow> Inl TypeError)"

definition build_lookup :: "Compose jsfield stored \<Rightarrow> error + Names obj" where
  "build_lookup file =
     (case file of
        Missing \<Rightarrow> Inl IOError
      | Unparseable \<Rightarrow> Inl SyntaxError
      | Stored (Present compose) \<Rightarrow>
          (case compose_include compose of
             Present includes \<Rightarrow> forEach lookup_include includes []
           | _ \<Rightarrow> Inl TypeError)
      | Stored _ \<Rightarrow> Inl TypeError)"

text \<open>Lines 273 to 302: the MAH lookup stays empty without a MAH resource; with one, an
  exception while reading or building is logged and leaves the lookup empty.\<close>

definition build_mah_lookup :: "ValueSet option \<Rightarrow> files \<Rightarrow> Names obj \<times> event list" where
  "build_mah_lookup mahResource fs =
     (case mahResource of
        None \<Rightarrow> ([], [])
      | Some _ \<Rightarrow>
          (case build_lookup (mah_json fs) of
             Inl e \<Rightarrow> ([], [ErrorReadingMAH e])
           | Inr lookup \<Rightarrow> (lookup, [])))"

text \<open>
  \<^verbatim>\<open>main\<close>. An exception anywhere is caught at line 324 and logged; the files written
  before it stay written. \<open>api\<close> is \<^verbatim>\<open>API_URL\<close>, \<open>response\<close> the outcome of the request.
\<close>

definition main :: "builtins \<Rightarrow> string \<Rightarrow> error + Data \<Rightarrow> files \<Rightarrow> files \<times> event list" where
  "main js api response fs =
     (case response of
        Inl e \<Rightarrow> (fs, [ErrorMessage e])
      | Inr data \<Rightarrow>
          (let log0 = [ReceivedResourceIds (map (\<lambda>entry. vs_id (entry_resource entry)) (data_entry data))];
               diseaseResource = find_resource isValueSetDisease (data_entry data);
               mahResource = find_resource isValueSetMAH (data_entry data);
               (fs2, log2, failed) = write_resources diseaseResource mahResource (fs, log0)
           in case failed of
                Some e \<Rightarrow> (fs2, log2 @ [ErrorMessage e])
              | None \<Rightarrow>
                  (case build_lookup (disease_json fs2) of
                     Inl e \<Rightarrow> (fs2, log2 @ [ErrorMessage e])
                   | Inr diseaseLookup \<Rightarrow>
                       (let (mahLookup, mahLog) = build_mah_lookup mahResource fs2;
                            log3 = log2 @ mahLog
                        in case parseNVCBundle js api data diseaseLookup mahLookup of
                             Inl e \<Rightarrow> (fs2, log3 @ [ErrorMessage e])
                           | Inr table \<Rightarrow>
                               (fs2\<lparr>nvc_bundle_json := Stored (data_versionId data, table),
                                    nvc_version_json := Stored (Some (data_versionId data))\<rparr>,
                                log3 @ [Wrote bundle_path, Wrote version_path,
                                        SuccessfullyUpdated (data_versionId data)])))))"

section \<open>The run of the simpler variant\<close>



section \<open>The resolver's contract, in the words of its specification\<close>

text \<open>
  The nodes of an extension tree in depth-first order: a node, then the nodes below it
  (when its \<^verbatim>\<open>extension\<close> is an array), then its later siblings. An element that is
  \<^verbatim>\<open>null\<close> is no node.
\<close>

fun spec_nodes :: "Extension option list \<Rightarrow> Extension list" where
  "spec_nodes [] = []"
| "spec_nodes (None # rest) = spec_nodes rest"
| "spec_nodes (Some (Extension u (Present children) v) # rest) =
     Extension u (Present children) v # spec_nodes children @ spec_nodes rest"
| "spec_nodes (Some (Extension u Absent v) # rest) = Extension u Absent v # spec_nodes rest"
| "spec_nodes (Some (Extension u (Malformed t) v) # rest) =
     Extension u (Malformed t) v # spec_nodes rest"

text \<open>The trees on which the search of lines 110 to 118 does not throw: no element of
  an array it walks is \<^verbatim>\<open>null\<close>, and every \<^verbatim>\<open>url\<close> is a string or falsy.\<close>

fun traversable :: "Extension option list \<Rightarrow> bool" where
  "traversable [] = True"
| "traversable (None # rest) = False"
| "traversable (Some (Extension u (Present children) v) # rest) =
     (u \<noteq> Malformed True \<and> traversable children \<and> traversable rest)"
| "traversable (Some (Extension u Absent v) # rest) = (u \<noteq> Malformed True \<and> traversable rest)"
| "traversable (Some (Extension u (Malformed t) v) # rest) =
     (u \<noteq> Malformed True \<and> traversable rest)"

text \<open>The nodes the test of line 112 keeps.\<close>

definition matches :: "builtins \<Rightarrow> string \<Rightarrow> Extension \<Rightarrow> bool" where
  "matches js targetUrl e = (url_matches js targetUrl e = Inr True)"

text \<open>The elements of an array that are objects.\<close>

fun objects :: "'a option list \<Rightarrow> 'a list" where
  "objects [] = []"
| "objects (None # xs) = objects xs"
| "objects (Some x # xs) = x # objects xs"

text \<open>The coded values attached to a node; none when the coded value or its list is
  absent or of another shape.\<close>

definition codings_of :: "Extension \<Rightarrow> Coding list" where
  "codings_of e =
     (case ext_valueCodeableConcept e of
        Present vcc \<Rightarrow> (case vcc_coding vcc of Present coding \<Rightarrow> objects coding | _ \<Rightarrow> [])
      | _ \<Rightarrow> [])"

text \<open>The shapes of a node on which lines 127 to 132 throw: a coded value whose
  \<^verbatim>\<open>coding\<close> is truthy and not an array, or is an array with an element \<^verbatim>\<open>null\<close>.\<close>

definition coding_iterable :: "Extension \<Rightarrow> bool" where
  "coding_iterable e =
     (case ext_valueCodeableConcept e of
        Present vcc \<Rightarrow>
          (case vcc_coding vcc of
             Present coding \<Rightarrow> list_all (\<lambda>c. c \<noteq> None) coding
           | Malformed t \<Rightarrow> \<not> t
           | Absent \<Rightarrow> True)
      | _ \<Rightarrow> True)"

text \<open>The match as the specification words it: the URLs are equal after trimming and
  lower-casing. A node whose \<^verbatim>\<open>url\<close> is no string has no URL to compare.\<close>

definition spec_url_equal :: "builtins \<Rightarrow> string \<Rightarrow> Extension \<Rightarrow> bool" where
  "spec_url_equal js targetUrl e =
     (case ext_url e of
        Present url \<Rightarrow> toLowerCase js (trim js url) = toLowerCase js (trim js targetUrl)
      | _ \<Rightarrow> False)"

text \<open>Merging (code, display) pairs into one mapping, a later pair overwriting an
  earlier one on the same code.\<close>

fun merge_into :: "(string \<rightharpoonup> string) \<Rightarrow> Coding list \<Rightarrow> (string \<rightharpoonup> string)" where
  "merge_into m [] = m"
| "merge_into m (c # cs) = merge_into (m(coding_code c \<mapsto> coding_display c)) cs"

definition spec_merge :: "Coding list \<Rightarrow> (string \<rightharpoonup> string)" where
  "spec_merge cs = merge_into Map.empty cs"

definition matched_codings :: "(Extension \<Rightarrow> bool) \<Rightarrow> Extension option list \<Rightarrow> Coding list" where
  "matched_codings matching exts = concat (map codings_of (filter matching (spec_nodes exts)))"

text \<open>The specified result for a given notion of match: one mapping in a
  single-element sequence, or the empty sequence when there is no coded value.\<close>

definition spec_result :: "Coding list \<Rightarrow> (string \<rightharpoonup> string) list" where
  "spec_result cs = (if cs = [] then [] else [spec_merge cs])"

definition spec_resolve :: "(Extension \<Rightarrow> bool) \<Rightarrow> Extension option list \<Rightarrow> (string \<rightharpoonup> string) list" where
  "spec_resolve matching exts = spec_result (matched_codings matching exts)"

text \<open>The coded values whose code an assignment can store: all but those coded
  \<^verbatim>\<open>__proto__\<close>.\<close>

definition assigned :: "Coding list \<Rightarrow> Coding list" where
  "assigned cs = filter (\<lambda>c. coding_code c \<noteq> ''__proto__'') cs"

text \<open>An extension tree with every absent or malformed part replaced by an empty one:
  a nested \<^verbatim>\<open>extension\<close> that is not an array by the empty array, a coded value that is
  not an object by one with no codings, a falsy \<^verbatim>\<open>coding\<close> by the empty array.\<close>

fun as_empty_vcc :: "ValueCodeableConcept jsfield \<Rightarrow> ValueCodeableConcept jsfield" where
  "as_empty_vcc (Present (ValueCodeableConcept (Present cs) txt)) =
     Present (ValueCodeableConcept (Present cs) txt)"
| "as_empty_vcc (Present (ValueCodeableConcept (Malformed t) txt)) =
     (if t then Present (ValueCodeableConcept (Malformed t) txt)
      else Present (ValueCodeableConcept (Present []) txt))"
| "as_empty_vcc (Present (ValueCodeableConcept Absent txt)) =
     Present (ValueCodeableConcept (Present []) txt)"
| "as_empty_vcc (Malformed t) = Present (ValueCodeableConcept (Present []) [])"
| "as_empty_vcc Absent = Present (ValueCodeableConcept (Present []) [])"

fun as_empty :: "Extension option list \<Rightarrow> Extension option list" where
  "as_empty [] = []"
| "as_empty (None # rest) = None # as_empty rest"
| "as_empty (Some (Extension u (Present children) v) # rest) =
     Some (Extension u (Present (as_empty children)) (as_empty_vcc v)) # as_empty rest"
| "as_empty (Some (Extension u Absent v) # rest) =
     Some (Extension u (Present []) (as_empty_vcc v)) # as_empty rest"
| "as_empty (Some (Extension u (Malformed t) v) # rest) =
     Some (Extension u (Present []) (as_empty_vcc v)) # as_empty rest"

text \<open>Rearranging siblings, at any depth of the tree.\<close>

inductive sibling_perm :: "Extension option list \<Rightarrow> Extension option list \<Rightarrow> bool" where
  same: "sibling_perm es es"
| swap: "sibling_perm (x # y # es) (y # x # es)"
| later: "sibling_perm es es' \<Longrightarrow> sibling_perm (x # es) (x # es')"
| below: "sibling_perm cs cs' \<Longrightarrow>
          sibling_perm (Some (Extension u (Present cs) v) # es)
                       (Some (Extension u (Present cs') v) # es)"
| step: "sibling_perm es es' \<Longrightarrow> sibling_perm es' es'' \<Longrightarrow> sibling_perm es es''"

text \<open>No two coded values give one code two different displays.\<close>

definition conflict_free :: "Coding list \<Rightarrow> bool" where
  "conflict_free cs =
     list_all (\<lambda>c. list_all (\<lambda>d. coding_code c \<noteq> coding_code d
                                  \<or> coding_display c = coding_display d) cs) cs"

text \<open>A result read as mappings, forgetting the order of the keys.\<close>

definition as_mappings :: "error + string obj list \<Rightarrow> error + (string \<rightharpoonup> string) list" where
  "as_mappings r = (case r of Inl e \<Rightarrow> Inl e | Inr objs \<Rightarrow> Inr (map obj_get objs))"

text \<open>Every node the search matches has a coding the loop of lines 129 to 131 can run
  over.\<close>

definition all_iterable :: "builtins \<Rightarrow> string \<Rightarrow> Extension option list \<Rightarrow> bool" where
  "all_iterable js targetUrl exts =
     list_all coding_iterable (filter (matches js targetUrl) (spec_nodes exts))"

text \<open>The trees on which a resolution does not throw.\<close>

definition well_formed :: "builtins \<Rightarrow> string \<Rightarrow> Extension option list \<Rightarrow> bool" where
  "well_formed js targetUrl exts = (traversable exts \<and> all_iterable js targetUrl exts)"

section \<open>The flattener's contract, in the words of its specification\<close>

definition designations_of :: "Concept \<Rightarrow> Designation list" where
  "designations_of c = (case concept_designation c of None \<Rightarrow> [] | Some ds \<Rightarrow> ds)"

text \<open>Display selection as the specification words it: the value of a matching
  Designation, the raw display exactly when none matches.\<close>

definition spec_display_selection :: "Concept \<Rightarrow> string \<Rightarrow> string \<Rightarrow> string" where
  "spec_display_selection c lang code =
     (case find (designation_matches lang code) (designations_of c) of
        Some d \<Rightarrow> desig_value d
      | None \<Rightarrow> concept_display c)"

text \<open>The Concepts of a ValueSet, and the Concepts the flattener processes, in the order
  it processes them.\<close>

definition include_concepts :: "Include \<Rightarrow> Concept list" where
  "include_concepts inc = (case include_concept inc of Present cs \<Rightarrow> cs | _ \<Rightarrow> [])"

definition valueset_concepts :: "ValueSet \<Rightarrow> Concept list" where
  "valueset_concepts vs =
     (case vs_compose vs of
        Present compose \<Rightarrow>
          (case compose_include compose of
             Present includes \<Rightarrow> concat (map include_concepts includes)
           | _ \<Rightarrow> [])
      | _ \<Rightarrow> [])"

definition processed_concepts :: "Data \<Rightarrow> Concept list" where
  "processed_concepts data =
     concat (map (\<lambda>e. if isValueSet (vs_id (entry_resource e))
                       then valueset_concepts (entry_resource e) else [])
                 (data_entry data))"

text \<open>A Concept on which neither resolution of the flattener throws.\<close>

definition resolvable :: "builtins \<Rightarrow> string \<Rightarrow> Concept \<Rightarrow> bool" where
  "resolvable js api c =
     (case concept_extension c of
        Present exts \<Rightarrow> well_formed js (disease_url api) exts \<and> well_formed js (mah_url api) exts
      | _ \<Rightarrow> False)"

text \<open>The record the bilingual variant leaves in the table for one Concept.\<close>

definition bilingual_entry :: "builtins \<Rightarrow> string \<Rightarrow> Names obj \<Rightarrow> Names obj \<Rightarrow> Concept \<Rightarrow> error + table_entry" where
  "bilingual_entry js api diseaseLookup mahLookup c =
     (case getExtensionValueByUrl js c (disease_url api) of
        Inl e \<Rightarrow> Inl e
      | Inr disease \<Rightarrow>
          (case getExtensionValueByUrl js c (mah_url api) of
             Inl e \<Rightarrow> Inl e
           | Inr MAH \<Rightarrow>
               Inr ([(''displayEN'', JStr (displayEN_of c)), (''displayFR'', JStr (displayFR_of c)),
                     (''diseaseEN'', JObjs (disease_names names_en diseaseLookup disease)),
                     (''diseaseFR'', JObjs (disease_names names_fr diseaseLookup disease))]
                    @ (if mah_name names_en mahLookup MAH \<noteq> [] \<and> mah_name names_fr mahLookup MAH \<noteq> []
                       then [(''MAHEN'', JStr (mah_name names_en mahLookup MAH)),
                             (''MAHFR'', JStr (mah_name names_fr mahLookup MAH))]
                       else []))))"

text \<open>The record the simpler variant leaves in the table for one Concept.\<close>

definition simple_entry :: "builtins \<Rightarrow> Concept \<Rightarrow> error + table_entry" where
  "simple_entry js c =
     (case getExtensionValueByUrl js c (disease_url simple_api) of
        Inl e \<Rightarrow> Inl e
      | Inr disease \<Rightarrow>
          (case getExtensionValueByUrl js c (mah_url simple_api) of
             Inl e \<Rightarrow> Inl e
           | Inr MAH \<Rightarrow>
               Inr ([(''displayName'', JStr (concept_display c))]
                    @ (if disease \<noteq> [] then [(''disease'', JObjs disease)] else [])
                    @ (if MAH \<noteq> [] then [(''MAH'', JObjs MAH)] else []))))"

section \<open>The runs' contracts, in the words of their specification\<close>


text \<open>The display of the first code of a resolved MAH extension; the empty string when
  it did not resolve.\<close>

definition raw_mah_display :: "string obj list \<Rightarrow> string" where
  "raw_mah_display MAH =
     (case MAH of
        [] \<Rightarrow> []
      | m0 # _ \<Rightarrow> (case m0 of [] \<Rightarrow> [] | (code0, d) # _ \<Rightarrow> d))"

section \<open>Example data\<close>

text \<open>
  The two built-ins as they act on ASCII text: \<^verbatim>\<open>trim\<close> removes TAB, LF, VT, FF, CR and
  the space at both ends, \<^verbatim>\<open>toLowerCase\<close> maps the letters A to Z. Every string of the
  examples below is ASCII text.
\<close>

definition ascii_space :: "char \<Rightarrow> bool" where
  "ascii_space c = (c = CHR 0x09 \<or> c = CHR 0x0A \<or> c = CHR 0x0B \<or> c = CHR 0x0C
                    \<or> c = CHR 0x0D \<or> c = CHR 0x20)"

definition ascii_trim :: "string \<Rightarrow> string" where
  "ascii_trim s = rev (dropWhile ascii_space (rev (dropWhile ascii_space s)))"

definition ascii_lower :: "char \<Rightarrow> char" where
  "ascii_lower c =
     (let n = (of_char c :: nat) in if 65 \<le> n \<and> n \<le> 90 then char_of (n + 32) else c)"

definition ascii_toLowerCase :: "string \<Rightarrow> string" where
  "ascii_toLowerCase s = map ascii_lower s"

definition ascii :: builtins where
  "ascii = \<lparr>trim = ascii_trim, toLowerCase = ascii_toLowerCase\<rparr>"

definition ex_measles :: ValueCodeableConcept where
  "ex_measles = ValueCodeableConcept (Present [Some (Coding ''sct'' ''D1'' ''Measles'')]) []"

definition ex_no_extension :: Concept where
  "ex_no_extension = Concept ''V001'' ''Vaccine A'' None Absent"

definition ex_null_extension :: Concept where
  "ex_null_extension = Concept ''V001'' ''Vaccine A'' None
     (Present [Some (Extension (Present ''http://x/other'') (Present [None]) Absent)])"

definition ex_numeric_url :: Concept where
  "ex_numeric_url = Concept ''V001'' ''Vaccine A'' None
     (Present [Some (Extension (Malformed True) Absent Absent)])"

definition ex_coding_object :: Concept where
  "ex_coding_object = Concept ''V001'' ''Vaccine A'' None
     (Present [Some (Extension (Present ''http://x/disease'') Absent
                 (Present (ValueCodeableConcept (Malformed True) [])))])"

definition ex_null_coding :: Concept where
  "ex_null_coding = Concept ''V001'' ''Vaccine A'' None
     (Present [Some (Extension (Present ''http://x/disease'') Absent
                 (Present (ValueCodeableConcept
                    (Present [Some (Coding ''sct'' ''D1'' ''Measles''), None]) [])))])"

definition ex_proto_exts :: "Extension option list" where
  "ex_proto_exts =
     [Some (Extension (Present ''http://x/disease'') Absent
        (Present (ValueCodeableConcept
           (Present [Some (Coding ''sct'' ''__proto__'' ''Measles'')]) [])))]"

definition ex_proto :: Concept where
  "ex_proto = Concept ''V001'' ''Vaccine A'' None (Present ex_proto_exts)"

definition ex_coding_string :: Concept where
  "ex_coding_string = Concept ''V002'' ''Vaccine B'' None
     (Present [Some (Extension (Present ''HTTP://X/Disease'') Absent
                 (Present (ValueCodeableConcept (Malformed True) [])))])"

definition ex_sparse_exts :: "Extension option list" where
  "ex_sparse_exts =
     [Some (Extension (Present ''http://x/disease'') (Malformed True) Absent),
      Some (Extension (Present ''http://x/disease'') Absent (Malformed False)),
      Some (Extension Absent Absent Absent),
      Some (Extension (Malformed False) Absent (Present ex_measles)),
      Some (Extension (Present ''http://x/other'')
        (Present [Some (Extension (Present '' HTTP://X/Disease '') (Malformed False)
                     (Present ex_measles))])
        (Present (ValueCodeableConcept Absent []))),
      Some (Extension (Present ''http://x/disease'') Absent
        (Present (ValueCodeableConcept (Malformed False) [])))]"

definition ex_sparse :: Concept where
  "ex_sparse = Concept ''V002'' ''Vaccine B'' None (Present ex_sparse_exts)"

definition ex_nested_exts :: "Extension option list" where
  "ex_nested_exts =
     [Some (Extension (Present ''http://x/disease'')
        (Present [Some (Extension (Present ''HTTP://x/Disease'') Absent
                    (Present (ValueCodeableConcept
                       (Present [Some (Coding ''sct'' ''D1'' ''Measles (child)''),
                                 Some (Coding ''sct'' ''7'' ''Seven'')]) [])))])
        (Present ex_measles)),
      Some (Extension (Present ''http://x/other'')
        (Present [Some (Extension (Present ''http://x/disease '') Absent
                    (Present (ValueCodeableConcept
                       (Present [Some (Coding ''sct'' ''D2'' ''Mumps'')]) [])))])
        Absent)]"

definition ex_nested :: Concept where
  "ex_nested = Concept ''V003'' ''Vaccine C'' None (Present ex_nested_exts)"

definition ex_first :: Extension where
  "ex_first = Extension (Present ''http://x/disease'') Absent
     (Present (ValueCodeableConcept (Present [Some (Coding ''sct'' ''D1'' ''Measles'')]) []))"

definition ex_second :: Extension where
  "ex_second = Extension (Present ''http://x/disease'') Absent
     (Present (ValueCodeableConcept (Present [Some (Coding ''sct'' ''D1'' ''Rougeole'')]) []))"

definition ex_third :: Extension where
  "ex_third = Extension (Present ''http://x/disease'') Absent
     (Present (ValueCodeableConcept (Present [Some (Coding ''sct'' ''D2'' ''Mumps'')]) []))"

definition ex_api :: string where
  "ex_api = ''https://nvc-cnv.canada.ca''"

definition ex_en_use :: Use where
  "ex_en_use = Use naming_system ''enDisplayTerm'' ''English display term''"

definition ex_fr_use :: Use where
  "ex_fr_use = Use naming_system ''frDisplayTerm'' ''French display term''"

definition ex_alpha :: Concept where
  "ex_alpha = Concept ''V001'' ''Vaccine A''
     (Some [Designation ''en'' (Some ex_en_use) ''Vaccine Alpha'']) (Present [])"

definition ex_blank_value :: Concept where
  "ex_blank_value = Concept ''V001'' ''Vaccine A''
     (Some [Designation ''en'' (Some ex_en_use) []]) (Present [])"

definition ex_protects :: Extension where
  "ex_protects =
     Extension
       (Present ''https://nvc-cnv.canada.ca/v1/StructureDefinition/nvc-protects-against-disease'')
       Absent
       (Present (ValueCodeableConcept (Present [Some (Coding ''sct'' ''D1'' ''Measles'')]) []))"

definition ex_holder :: Extension where
  "ex_holder =
     Extension
       (Present ''https://nvc-cnv.canada.ca/v1/StructureDefinition/nvc-linked-to-market-authorization-holder'')
       Absent
       (Present (ValueCodeableConcept (Present [Some (Coding ''sct'' ''M1'' ''Pfizer (raw)'')]) []))"

definition ex_beta :: Concept where
  "ex_beta = Concept ''V002'' ''Vaccine B'' None (Present [Some ex_protects, Some ex_holder])"

definition ex_alpha_brand :: Concept where
  "ex_alpha_brand = Concept ''V001'' ''Vaccine A (brand)'' None (Present [Some ex_holder])"

definition ex_measles_concept :: Concept where
  "ex_measles_concept = Concept ''D1'' ''Measles''
     (Some [Designation ''fr'' (Some ex_fr_use) ''Rougeole'']) (Present [])"

definition ex_disease_compose :: Compose where
  "ex_disease_compose = Compose (Present [Include ''sct'' ''1'' (Present [ex_measles_concept])])"

definition ex_bundle :: Data where
  "ex_bundle = Data ''2024-01''
     [Entry ''urn:1'' (ValueSet ''Generic''
        (Present (Compose (Present [Include ''nvc'' ''1'' (Present [ex_alpha])])))),
      Entry ''urn:2'' (ValueSet ''Disease'' (Present ex_disease_compose)),
      Entry ''urn:3'' (ValueSet ''Tradename''
        (Present (Compose (Present [Include ''nvc'' ''1'' (Present [ex_alpha_brand, ex_beta]),
                                    Include ''nvc'' ''2'' Absent]))))]"

definition ex_disease_lookup :: "Names obj" where
  "ex_disease_lookup = [(''D1'', Names ''Measles'' ''Rougeole'')]"

definition ex_no_files :: files where
  "ex_no_files = \<lparr>disease_json = Missing, mah_json = Missing,
                   nvc_bundle_json = Missing, nvc_version_json = Missing\<rparr>"

definition ex_table :: lookup_table where
  "ex_table =
     [(''V001'', [(''displayEN'', JStr ''Vaccine A (brand)''), (''displayFR'', JStr ''Vaccine A (brand)''),
                  (''diseaseEN'', JObjs []), (''diseaseFR'', JObjs []),
                  (''MAHEN'', JStr ''Pfizer (raw)''), (''MAHFR'', JStr ''Pfizer (raw)'')]),
      (''V002'', [(''displayEN'', JStr ''Vaccine B''), (''displayFR'', JStr ''Vaccine B''),
                  (''diseaseEN'', JObjs [[(''D1'', ''Measles'')]]),
                  (''diseaseFR'', JObjs [[(''D1'', ''Rougeole'')]]),
                  (''MAHEN'', JStr ''Pfizer (raw)''), (''MAHFR'', JStr ''Pfizer (raw)'')])]"


definition ex_bundle_no_disease :: Data where
  "ex_bundle_no_disease = Data ''2024-02''
     [Entry ''urn:3'' (ValueSet ''Tradename''
        (Present (Compose (Present [Include ''nvc'' ''1'' (Present [ex_beta])]))))]"

definition ex_proto_generic :: Concept where
  "ex_proto_generic = Concept ''__proto__'' ''Vaccine P'' None (Present [])"

definition ex_proto_brand :: Concept where
  "ex_proto_brand = Concept ''__proto__'' ''Vaccine P (brand)'' None (Present [])"

definition ex_bundle_proto :: Data where
  "ex_bundle_proto = Data ''2024-03''
     [Entry ''urn:1'' (ValueSet ''Generic''
        (Present (Compose (Present [Include ''nvc'' ''1'' (Present [ex_proto_generic, ex_alpha])])))),
      Entry ''urn:3'' (ValueSet ''Tradename''
        (Present (Compose (Present [Include ''nvc'' ''1'' (Present [ex_proto_brand])]))))]"

section \<open>Properties of objects\<close>

lemma obj_keys_overwrite: "obj_keys (obj_overwrite k v ob) = obj_keys ob"
  by (induction ob) (auto simp: obj_keys_def)

lemma obj_get_overwrite:
  "k \<in> set (obj_keys ob) \<Longrightarrow> obj_get (obj_overwrite k v ob) = (obj_get ob)(k \<mapsto> v)"
proof (induction ob)
  case Nil
  then show ?case by (simp add: obj_keys_def)
next
  case (Cons p ps)
  show ?case
  proof (cases "fst p = k")
    case True
    then show ?thesis by (cases p) (auto simp: obj_get_def fun_eq_iff)
  next
    case False
    with Cons.prems have "k \<in> set (obj_keys ps)" by (simp add: obj_keys_def)
    from Cons.IH[OF this] False show ?thesis
      by (cases p) (auto simp: obj_get_def fun_eq_iff)
  qed
qed

lemma set_obj_keys_insert_index: "set (obj_keys (obj_insert_index k v ob)) = insert k (set (obj_keys ob))"
  by (induction ob) (auto simp: obj_keys_def)

lemma obj_get_insert_index:
  "k \<notin> set (obj_keys ob) \<Longrightarrow> obj_get (obj_insert_index k v ob) = (obj_get ob)(k \<mapsto> v)"
proof (induction ob)
  case Nil
  then show ?case by (simp add: obj_get_def)
next
  case (Cons p ps)
  then have "k \<notin> set (obj_keys ps)" and "fst p \<noteq> k" by (auto simp: obj_keys_def)
  with Cons.IH show ?case
    by (cases p) (auto simp: obj_get_def fun_eq_iff)
qed

lemma obj_get_append:
  "k \<notin> set (obj_keys ob) \<Longrightarrow> obj_get (ob @ [(k, v)]) = (obj_get ob)(k \<mapsto> v)"
proof -
  assume "k \<notin> set (obj_keys ob)"
  then have "map_of ob k = None" by (simp add: obj_keys_def map_of_eq_None_iff)
  then show ?thesis
    by (auto simp: obj_get_def fun_eq_iff map_add_def split: option.splits)
qed

lemma obj_get_put: "obj_get (obj_put ob k v) = (obj_get ob)(k \<mapsto> v)"
  by (simp add: obj_put_def obj_get_overwrite obj_get_insert_index obj_get_append)

lemma set_obj_keys_put: "set (obj_keys (obj_put ob k v)) = insert k (set (obj_keys ob))"
proof -
  have "set (obj_keys (ob @ [(k, v)])) = insert k (set (obj_keys ob))"
    by (simp add: obj_keys_def)
  then show ?thesis
    by (auto simp: obj_put_def obj_keys_overwrite set_obj_keys_insert_index simp del: set_append)
qed

lemma obj_get_set:
  "obj_get (obj_set ob k v) = (if k = ''__proto__'' then obj_get ob else (obj_get ob)(k \<mapsto> v))"
  by (simp add: obj_set_def obj_get_put)

lemma set_obj_keys_set:
  "set (obj_keys (obj_set ob k v))
     = (if k = ''__proto__'' then set (obj_keys ob) else insert k (set (obj_keys ob)))"
  by (simp add: obj_set_def set_obj_keys_put)

lemma distinct_obj_insert_index:
  "distinct (obj_keys ob) \<Longrightarrow> k \<notin> set (obj_keys ob) \<Longrightarrow> distinct (obj_keys (obj_insert_index k v ob))"
proof (induction ob)
  case Nil
  then show ?case by (simp add: obj_keys_def)
next
  case (Cons p ps)
  then have d: "distinct (obj_keys ps)" and n: "k \<notin> set (obj_keys ps)"
    and f: "fst p \<notin> set (obj_keys ps)" and ne: "fst p \<noteq> k"
    by (auto simp: obj_keys_def)
  have "fst p \<notin> set (obj_keys (obj_insert_index k v ps))"
    using f ne by (simp add: set_obj_keys_insert_index)
  moreover have "obj_keys (p # qs) = fst p # obj_keys qs" for qs :: "'a obj"
    by (simp add: obj_keys_def)
  moreover have "obj_keys ((k, v) # qs) = k # obj_keys qs" for qs :: "'a obj"
    by (simp add: obj_keys_def)
  ultimately show ?case using Cons.IH[OF d n] d n f ne by simp
qed

lemma distinct_obj_keys_set: "distinct (obj_keys ob) \<Longrightarrow> distinct (obj_keys (obj_set ob k v))"
proof -
  assume d: "distinct (obj_keys ob)"
  have "k \<notin> set (obj_keys ob) \<Longrightarrow> distinct (obj_keys (ob @ [(k, v)]))"
    using d by (simp add: obj_keys_def)
  then show ?thesis using d
    by (simp add: obj_set_def obj_put_def obj_keys_overwrite distinct_obj_insert_index)
qed

lemma obj_keys_in_dom: "k \<in> set (obj_keys ob) \<longleftrightarrow> obj_get ob k \<noteq> None"
  by (simp add: obj_keys_def obj_get_def map_of_eq_None_iff)

subsection \<open>The traversal and the merge\<close>

lemma url_matches_string_or_falsy:
  "ext_url e \<noteq> Malformed True \<Longrightarrow> url_matches js t e = Inr (matches js t e)"
  by (auto simp: url_matches_def matches_def split: jsfield.splits)

lemma url_matches_throws:
  "ext_url e = Malformed True \<Longrightarrow> url_matches js t e = Inl TypeError"
  by (simp add: url_matches_def)

lemma findExtensions_loop_eq:
  "findExtensions_loop js t es acc =
     (if traversable es then Inr (acc @ filter (matches js t) (spec_nodes es)) else Inl TypeError)"
proof (induction js t es acc rule: findExtensions_loop.induct)
  case (1 js t result)
  show ?case by simp
next
  case (2 js t rest result)
  show ?case by simp
next
  case (3 js t u children v rest result)
  let ?e = "Extension u (Present children) v"
  show ?case
  proof (cases "u = Malformed True")
    case True
    then show ?thesis by (simp add: url_matches_throws)
  next
    case False
    then have m: "url_matches js t ?e = Inr (matches js t ?e)"
      by (simp add: url_matches_string_or_falsy)
    note below = "3.IH"(1)[OF m refl]
    show ?thesis
    proof (cases "traversable children")
      case True
      with below have b: "findExtensions_loop js t children []
                          = Inr (filter (matches js t) (spec_nodes children))"
        by simp
      from "3.IH"(2)[OF m refl b] m b False True show ?thesis by simp
    next
      case no: False
      with below have "findExtensions_loop js t children [] = Inl TypeError" by simp
      with m no show ?thesis by simp
    qed
  qed
next
  case (4 js t u v rest result)
  let ?e = "Extension u Absent v"
  show ?case
  proof (cases "u = Malformed True")
    case True
    then show ?thesis by (simp add: url_matches_throws)
  next
    case False
    then have m: "url_matches js t ?e = Inr (matches js t ?e)"
      by (simp add: url_matches_string_or_falsy)
    from "4.IH"[OF m refl] m False show ?thesis by simp
  qed
next
  case (5 js t u b v rest result)
  let ?e = "Extension u (Malformed b) v"
  show ?case
  proof (cases "u = Malformed True")
    case True
    then show ?thesis by (simp add: url_matches_throws)
  next
    case False
    then have m: "url_matches js t ?e = Inr (matches js t ?e)"
      by (simp add: url_matches_string_or_falsy)
    from "5.IH"[OF m refl] m False show ?thesis by simp
  qed
qed

lemma findExtensions_eq:
  "findExtensions js t es =
     (if traversable es then Inr (filter (matches js t) (spec_nodes es)) else Inl TypeError)"
  by (simp add: findExtensions_def findExtensions_loop_eq)

lemma forEach_append:
  "forEach f (xs @ ys) s = (case forEach f xs s of Inl e \<Rightarrow> Inl e | Inr s' \<Rightarrow> forEach f ys s')"
  by (induction xs arbitrary: s) (auto split: sum.splits)

lemma assigned_Nil [simp]: "assigned [] = []"
  by (simp add: assigned_def)

lemma assigned_append: "assigned (xs @ ys) = assigned xs @ assigned ys"
  by (simp add: assigned_def)

lemma assigned_all: "\<forall>d \<in> set cs. coding_code d \<noteq> ''__proto__'' \<Longrightarrow> assigned cs = cs"
  by (simp add: assigned_def)

lemma forEach_assign_coding:
  assumes "list_all (\<lambda>c. c \<noteq> None) cs"
  shows "\<exists>ob'. forEach assign_coding cs ob = Inr ob'
         \<and> obj_get ob' = merge_into (obj_get ob) (assigned (objects cs))
         \<and> set (obj_keys ob') = set (obj_keys ob) \<union> coding_code ` set (assigned (objects cs))
         \<and> (distinct (obj_keys ob) \<longrightarrow> distinct (obj_keys ob'))"
  using assms
proof (induction cs arbitrary: ob)
  case Nil
  then show ?case by simp
next
  case (Cons x cs)
  then obtain c where x: "x = Some c" and rest: "list_all (\<lambda>c. c \<noteq> None) cs" by auto
  obtain ob' where
    "forEach assign_coding cs (obj_set ob (coding_code c) (coding_display c)) = Inr ob'"
    "obj_get ob' = merge_into (obj_get (obj_set ob (coding_code c) (coding_display c)))
                     (assigned (objects cs))"
    "set (obj_keys ob') = set (obj_keys (obj_set ob (coding_code c) (coding_display c)))
                          \<union> coding_code ` set (assigned (objects cs))"
    "distinct (obj_keys (obj_set ob (coding_code c) (coding_display c)))
       \<longrightarrow> distinct (obj_keys ob')"
    using Cons.IH[OF rest] by blast
  moreover have "assign_coding x ob = Inr (obj_set ob (coding_code c) (coding_display c))"
    by (simp add: assign_coding_def x)
  ultimately show ?case
    by (simp add: x obj_get_set set_obj_keys_set distinct_obj_keys_set assigned_def)
qed

lemma forEach_assign_coding_throws:
  assumes "\<not> list_all (\<lambda>c. c \<noteq> None) cs"
  shows "forEach assign_coding cs ob = Inl TypeError"
  using assms
proof (induction cs arbitrary: ob)
  case Nil
  then show ?case by simp
next
  case (Cons x cs)
  show ?case
  proof (cases x)
    case None
    then show ?thesis by (simp add: assign_coding_def)
  next
    case (Some c)
    with Cons.prems have "\<not> list_all (\<lambda>c. c \<noteq> None) cs" by simp
    from Cons.IH[OF this] Some show ?thesis by (simp add: assign_coding_def)
  qed
qed

lemma collect_codings_iterable:
  assumes "coding_iterable e"
  shows "\<exists>ob'. collect_codings e ob = Inr ob'
         \<and> obj_get ob' = merge_into (obj_get ob) (assigned (codings_of e))
         \<and> set (obj_keys ob') = set (obj_keys ob) \<union> coding_code ` set (assigned (codings_of e))
         \<and> (distinct (obj_keys ob) \<longrightarrow> distinct (obj_keys ob'))"
proof (cases "\<exists>vcc cs. ext_valueCodeableConcept e = Present vcc \<and> vcc_coding vcc = Present cs")
  case True
  then obtain vcc cs where v: "ext_valueCodeableConcept e = Present vcc" "vcc_coding vcc = Present cs"
    by blast
  with assms have "list_all (\<lambda>c. c \<noteq> None) cs" by (simp add: coding_iterable_def)
  from forEach_assign_coding[OF this, of ob] v show ?thesis
    by (simp add: collect_codings_def codings_of_def)
next
  case False
  with assms have "collect_codings e ob = Inr ob" "codings_of e = []"
    by (auto simp: collect_codings_def codings_of_def coding_iterable_def split: jsfield.splits)
  then show ?thesis by simp
qed

lemma collect_codings_throws:
  assumes "\<not> coding_iterable e"
  shows "collect_codings e ob = Inl TypeError"
  using assms
  by (auto simp: collect_codings_def coding_iterable_def forEach_assign_coding_throws
           split: jsfield.splits)

lemma merge_into_append: "merge_into m (xs @ ys) = merge_into (merge_into m xs) ys"
  by (induction xs arbitrary: m) simp_all

lemma forEach_collect_codings:
  assumes "list_all coding_iterable es"
  shows "\<exists>ob'. forEach collect_codings es ob = Inr ob'
         \<and> obj_get ob' = merge_into (obj_get ob)
                             (assigned (concat (map codings_of es)))
         \<and> set (obj_keys ob') = set (obj_keys ob) \<union> coding_code ` set (assigned (concat (map codings_of es)))
         \<and> (distinct (obj_keys ob) \<longrightarrow> distinct (obj_keys ob'))"
  using assms
proof (induction es arbitrary: ob)
  case Nil
  then show ?case by simp
next
  case (Cons e es)
  then have it: "coding_iterable e" and rest: "list_all coding_iterable es" by simp_all
  obtain ob1 where 1: "collect_codings e ob = Inr ob1"
    "obj_get ob1 = merge_into (obj_get ob) (assigned (codings_of e))"
    "set (obj_keys ob1) = set (obj_keys ob) \<union> coding_code ` set (assigned (codings_of e))"
    "distinct (obj_keys ob) \<longrightarrow> distinct (obj_keys ob1)"
    using collect_codings_iterable[OF it] by blast
  obtain ob2 where 2: "forEach collect_codings es ob1 = Inr ob2"
    "obj_get ob2 = merge_into (obj_get ob1)
                     (assigned (concat (map codings_of es)))"
    "set (obj_keys ob2) = set (obj_keys ob1) \<union> coding_code ` set (assigned (concat (map codings_of es)))"
    "distinct (obj_keys ob1) \<longrightarrow> distinct (obj_keys ob2)"
    using Cons.IH[OF rest] by blast
  have "forEach collect_codings (e # es) ob = Inr ob2"
    using 1(1) 2(1) by simp
  moreover have "obj_get ob2 = merge_into (obj_get ob)
                     (assigned (concat (map codings_of (e # es))))"
    using 1(2) 2(2) by (simp add: merge_into_append assigned_append)
  moreover have "set (obj_keys ob2) = set (obj_keys ob) \<union> coding_code ` set (assigned (concat (map codings_of (e # es))))"
    using 1(3) 2(3) by (auto simp: assigned_append)
  moreover have "distinct (obj_keys ob) \<longrightarrow> distinct (obj_keys ob2)"
    using 1(4) 2(4) by blast
  ultimately show ?case by blast
qed

lemma forEach_collect_codings_throws:
  assumes "\<not> list_all coding_iterable es"
  shows "forEach collect_codings es ob = Inl TypeError"
  using assms
proof (induction es arbitrary: ob)
  case Nil
  then show ?case by simp
next
  case (Cons e es)
  show ?case
  proof (cases "coding_iterable e")
    case True
    with Cons.prems have "\<not> list_all coding_iterable es" by simp
    moreover obtain ob1 where "collect_codings e ob = Inr ob1"
      using collect_codings_iterable[OF True] by blast
    ultimately show ?thesis using Cons.IH by simp
  next
    case False
    then show ?thesis by (simp add: collect_codings_throws)
  qed
qed

text \<open>What a call returns, in terms of the nodes it matched.\<close>

lemma getExtensionValueByUrl_returns:
  assumes "concept_extension c = Present exts"
      and "traversable exts"
      and "list_all coding_iterable (filter (matches js t) (spec_nodes exts))"
  shows "\<exists>r. getExtensionValueByUrl js c t = Inr r
            \<and> map obj_get r = spec_result (assigned (matched_codings (matches js t) exts))
            \<and> list_all (\<lambda>ob. distinct (obj_keys ob)
                  \<and> set (obj_keys ob)
                      = coding_code ` set (assigned (matched_codings (matches js t) exts))) r"
proof -
  obtain ob where ob: "forEach collect_codings (filter (matches js t) (spec_nodes exts)) [] = Inr ob"
    "obj_get ob = merge_into (obj_get ([] :: string obj))
                    (assigned (concat (map codings_of (filter (matches js t) (spec_nodes exts)))))"
    "set (obj_keys ob) = set (obj_keys ([] :: string obj)) \<union>
        coding_code ` set (assigned (concat (map codings_of (filter (matches js t) (spec_nodes exts)))))"
    "distinct (obj_keys ([] :: string obj)) \<longrightarrow> distinct (obj_keys ob)"
    using forEach_collect_codings[OF assms(3), of "[]"] by blast
  have empty: "obj_get ([] :: string obj) = Map.empty" "obj_keys ([] :: string obj) = []"
    by (simp_all add: obj_get_def obj_keys_def fun_eq_iff)
  have keys: "obj_keys ob = [] \<longleftrightarrow> assigned (matched_codings (matches js t) exts) = []"
    using ob(3) by (auto simp: matched_codings_def empty simp flip: set_empty)
  show ?thesis
    using assms(1,2) ob keys
    by (auto simp: getExtensionValueByUrl_def findExtensions_eq spec_result_def
                   spec_merge_def matched_codings_def empty)
qed

lemma getExtensionValueByUrl_throws:
  assumes "concept_extension c = Present exts"
      and "\<not> (traversable exts
              \<and> list_all coding_iterable (filter (matches js t) (spec_nodes exts)))"
  shows "getExtensionValueByUrl js c t = Inl TypeError"
  using assms
  by (auto simp: getExtensionValueByUrl_def findExtensions_eq forEach_collect_codings_throws)

lemma getExtensionValueByUrl_no_array:
  assumes "\<forall>exts. concept_extension c \<noteq> Present exts"
  shows "getExtensionValueByUrl js c t = Inl TypeError"
  using assms by (simp add: getExtensionValueByUrl_def split: jsfield.splits)

subsection \<open>Merging is last-write-wins; without conflicts it forgets the order\<close>

lemma merge_into_other:
  "k \<notin> coding_code ` set cs \<Longrightarrow> merge_into m cs k = m k"
  by (induction cs arbitrary: m) auto

lemma merge_into_last:
  assumes "cs = before @ [d] @ after" and "coding_code d \<notin> coding_code ` set after"
  shows "merge_into m cs (coding_code d) = Some (coding_display d)"
  using assms by (simp add: merge_into_append merge_into_other)

lemma conflict_free_iff:
  "conflict_free cs \<longleftrightarrow>
     (\<forall>c\<in>set cs. \<forall>d\<in>set cs. coding_code c = coding_code d \<longrightarrow> coding_display c = coding_display d)"
  by (auto simp: conflict_free_def list_all_iff)

lemma last_with_key:
  assumes "c \<in> set cs"
  shows "\<exists>before d after. cs = before @ [d] @ after \<and> key d = key c \<and> key d \<notin> key ` set after"
  using assms
proof (induction cs rule: rev_induct)
  case Nil
  then show ?case by simp
next
  case (snoc x xs)
  show ?case
  proof (cases "key x = key c")
    case True
    have "xs @ [x] = xs @ [x] @ []" by simp
    moreover have "key x \<notin> key ` set []" by simp
    ultimately show ?thesis using True by blast
  next
    case False
    with snoc.prems have "c \<in> set xs" by auto
    then obtain before d after where *: "xs = before @ [d] @ after"
      "key d = key c" "key d \<notin> key ` set after"
      using snoc.IH by blast
    have "xs @ [x] = before @ [d] @ (after @ [x])" using *(1) by simp
    moreover have "key d \<notin> key ` set (after @ [x])"
      using *(2,3) False by auto
    ultimately show ?thesis using *(2) by blast
  qed
qed

lemma merge_into_conflict_free:
  assumes "conflict_free cs" and "c \<in> set cs"
  shows "merge_into m cs (coding_code c) = Some (coding_display c)"
proof -
  obtain before d after where split: "cs = before @ [d] @ after"
    "coding_code d = coding_code c" "coding_code d \<notin> coding_code ` set after"
    using last_with_key[OF assms(2), of coding_code] by blast
  have "merge_into m cs (coding_code d) = Some (coding_display d)"
    by (rule merge_into_last[OF split(1) split(3)])
  moreover have "d \<in> set cs" using split(1) by simp
  then have "coding_display d = coding_display c"
    using assms split(2) unfolding conflict_free_iff by blast
  ultimately show ?thesis using split(2) by simp
qed

lemma conflict_free_set:
  assumes "conflict_free cs" and "set cs' = set cs"
  shows "conflict_free cs'"
  unfolding conflict_free_iff assms(2) using assms(1) unfolding conflict_free_iff .

lemma conflict_free_assigned:
  assumes "conflict_free cs"
  shows "conflict_free (assigned cs)"
  using assms unfolding conflict_free_iff by (simp add: assigned_def)

lemma spec_merge_conflict_free:
  assumes "conflict_free cs" and "set cs' = set cs"
  shows "spec_merge cs' = spec_merge cs"
proof (rule ext)
  fix k
  have cf': "conflict_free cs'" by (rule conflict_free_set[OF assms])
  show "spec_merge cs' k = spec_merge cs k"
  proof (cases "k \<in> coding_code ` set cs")
    case True
    then obtain c where c: "c \<in> set cs" "k = coding_code c" by blast
    from c(1) have c': "c \<in> set cs'" unfolding assms(2) .
    have 1: "merge_into Map.empty cs (coding_code c) = Some (coding_display c)"
      by (rule merge_into_conflict_free[OF assms(1) c(1)])
    have 2: "merge_into Map.empty cs' (coding_code c) = Some (coding_display c)"
      by (rule merge_into_conflict_free[OF cf' c'])
    show ?thesis unfolding spec_merge_def c(2) 1 2 ..
  next
    case False
    from False have F': "k \<notin> coding_code ` set cs'" unfolding assms(2) .
    have "merge_into Map.empty cs' k = Map.empty k" by (rule merge_into_other[OF F'])
    moreover have "merge_into Map.empty cs k = Map.empty k" by (rule merge_into_other[OF False])
    ultimately show ?thesis unfolding spec_merge_def by (rule trans[OF _ sym])
  qed
qed

subsection \<open>Rearranging siblings keeps the matched nodes, up to order\<close>

lemma spec_nodes_append: "spec_nodes (xs @ ys) = spec_nodes xs @ spec_nodes ys"
  by (induction xs rule: spec_nodes.induct) simp_all

lemma spec_nodes_Cons: "spec_nodes (x # xs) = spec_nodes [x] @ spec_nodes xs"
  using spec_nodes_append[of "[x]" xs] by simp

lemma matched_codings_append:
  "matched_codings P (xs @ ys) = matched_codings P xs @ matched_codings P ys"
  by (simp add: matched_codings_def spec_nodes_append)

lemma matched_codings_Cons:
  "matched_codings P (x # xs) = matched_codings P [x] @ matched_codings P xs"
  using matched_codings_append[of P "[x]" xs] by simp

lemma matches_children:
  "matches js t (Extension u cs v) = matches js t (Extension u cs' v)"
  by (simp add: matches_def url_matches_def)

lemma matched_codings_below:
  "matched_codings (matches js t) [Some (Extension u (Present cs) v)] =
     (if matches js t (Extension u Absent v) then codings_of (Extension u Absent v) else [])
     @ matched_codings (matches js t) cs"
  using matches_children[of js t u "Present cs" v Absent]
  by (simp add: matched_codings_def codings_of_def)

lemma sibling_perm_matched_codings:
  "sibling_perm es es' \<Longrightarrow>
     mset (matched_codings (matches js t) es') = mset (matched_codings (matches js t) es)"
proof (induction rule: sibling_perm.induct)
  case (same es)
  show ?case by simp
next
  case (swap x y es)
  show ?case
    using matched_codings_Cons[of "matches js t" x "y # es"]
          matched_codings_Cons[of "matches js t" y es]
          matched_codings_Cons[of "matches js t" y "x # es"]
          matched_codings_Cons[of "matches js t" x es]
    by simp
next
  case (later es es' x)
  then show ?case
    using matched_codings_Cons[of "matches js t" x es]
          matched_codings_Cons[of "matches js t" x es']
    by simp
next
  case (below cs cs' u v es)
  then show ?case
    using matched_codings_Cons[of "matches js t" "Some (Extension u (Present cs) v)" es]
          matched_codings_Cons[of "matches js t" "Some (Extension u (Present cs') v)" es]
    by (simp add: matched_codings_below)
next
  case (step es es' es'')
  then show ?case by simp
qed

lemma all_iterable_append: "all_iterable js t (xs @ ys) \<longleftrightarrow> all_iterable js t xs \<and> all_iterable js t ys"
  by (simp add: all_iterable_def spec_nodes_append)

lemma all_iterable_Cons: "all_iterable js t (x # xs) \<longleftrightarrow> all_iterable js t [x] \<and> all_iterable js t xs"
  using all_iterable_append[of js t "[x]" xs] by simp

lemma all_iterable_below:
  "all_iterable js t [Some (Extension u (Present cs) v)] \<longleftrightarrow>
     (matches js t (Extension u Absent v) \<longrightarrow> coding_iterable (Extension u Absent v))
     \<and> all_iterable js t cs"
  using matches_children[of js t u "Present cs" v Absent]
  by (simp add: all_iterable_def coding_iterable_def)

lemma sibling_perm_all_iterable:
  "sibling_perm es es' \<Longrightarrow> all_iterable js t es' \<longleftrightarrow> all_iterable js t es"
proof (induction rule: sibling_perm.induct)
  case (same es)
  show ?case by simp
next
  case (swap x y es)
  show ?case
    using all_iterable_Cons[of js t x "y # es"] all_iterable_Cons[of js t y es]
          all_iterable_Cons[of js t y "x # es"] all_iterable_Cons[of js t x es]
    by blast
next
  case (later es es' x)
  then show ?case
    using all_iterable_Cons[of js t x es] all_iterable_Cons[of js t x es'] by blast
next
  case (below cs cs' u v es)
  then show ?case
    using all_iterable_Cons[of js t "Some (Extension u (Present cs) v)" es]
          all_iterable_Cons[of js t "Some (Extension u (Present cs') v)" es]
    by (simp add: all_iterable_below)
next
  case (step es es' es'')
  then show ?case by simp
qed

lemma traversable_append: "traversable (xs @ ys) \<longleftrightarrow> traversable xs \<and> traversable ys"
  by (induction xs rule: traversable.induct) auto

lemma traversable_Cons: "traversable (x # xs) \<longleftrightarrow> traversable [x] \<and> traversable xs"
  using traversable_append[of "[x]" xs] by simp

lemma sibling_perm_traversable:
  "sibling_perm es es' \<Longrightarrow> traversable es' \<longleftrightarrow> traversable es"
proof (induction rule: sibling_perm.induct)
  case (same es)
  show ?case by simp
next
  case (swap x y es)
  show ?case
    using traversable_Cons[of x "y # es"] traversable_Cons[of y es]
          traversable_Cons[of y "x # es"] traversable_Cons[of x es]
    by blast
next
  case (later es es' x)
  then show ?case
    using traversable_Cons[of x es] traversable_Cons[of x es'] by blast
next
  case (below cs cs' u v es)
  then show ?case by simp
next
  case (step es es' es'')
  then show ?case by simp
qed

lemma sibling_perm_well_formed:
  "sibling_perm es es' \<Longrightarrow> well_formed js t es' \<longleftrightarrow> well_formed js t es"
  by (simp add: well_formed_def sibling_perm_traversable sibling_perm_all_iterable)

lemma well_formed_returns:
  assumes "concept_extension c = Present exts" and "well_formed js t exts"
  shows "\<exists>r. getExtensionValueByUrl js c t = Inr r
            \<and> map obj_get r = spec_result (assigned (matched_codings (matches js t) exts))
            \<and> list_all (\<lambda>ob. distinct (obj_keys ob)
                  \<and> set (obj_keys ob)
                      = coding_code ` set (assigned (matched_codings (matches js t) exts))) r"
  using getExtensionValueByUrl_returns[OF assms(1), of js t] assms(2)
  by (simp add: well_formed_def all_iterable_def)

lemma not_well_formed_throws:
  assumes "concept_extension c = Present exts" and "\<not> well_formed js t exts"
  shows "getExtensionValueByUrl js c t = Inl TypeError"
  using getExtensionValueByUrl_throws[OF assms(1), of js t] assms(2)
  by (simp add: well_formed_def all_iterable_def)

lemma sibling_perm_as_mappings:
  assumes "concept_extension c = Present exts" and "concept_extension c' = Present exts'"
      and "sibling_perm exts exts'"
      and "conflict_free (matched_codings (matches js t) exts)"
  shows "as_mappings (getExtensionValueByUrl js c' t) = as_mappings (getExtensionValueByUrl js c t)"
proof (cases "well_formed js t exts")
  case True
  from True have wf': "well_formed js t exts'" using sibling_perm_well_formed[OF assms(3)] by simp
  obtain r where r: "getExtensionValueByUrl js c t = Inr r"
    "map obj_get r = spec_result (assigned (matched_codings (matches js t) exts))"
    using well_formed_returns[OF assms(1) True] by blast
  obtain r' where r': "getExtensionValueByUrl js c' t = Inr r'"
    "map obj_get r' = spec_result (assigned (matched_codings (matches js t) exts'))"
    using well_formed_returns[OF assms(2) wf'] by blast
  have "mset (matched_codings (matches js t) exts') = mset (matched_codings (matches js t) exts)"
    by (rule sibling_perm_matched_codings[OF assms(3)])
  then have m: "mset (assigned (matched_codings (matches js t) exts'))
              = mset (assigned (matched_codings (matches js t) exts))"
    by (simp add: assigned_def)
  then have s: "set (assigned (matched_codings (matches js t) exts'))
              = set (assigned (matched_codings (matches js t) exts))"
    by (rule mset_eq_setD)
  from m have e: "assigned (matched_codings (matches js t) exts') = []
                  \<longleftrightarrow> assigned (matched_codings (matches js t) exts) = []"
    by (metis mset_zero_iff)
  have "spec_result (assigned (matched_codings (matches js t) exts'))
      = spec_result (assigned (matched_codings (matches js t) exts))"
    using e spec_merge_conflict_free[OF conflict_free_assigned[OF assms(4)] s]
    by (simp add: spec_result_def)
  with r r' show ?thesis by (simp add: as_mappings_def)
next
  case False
  then have "getExtensionValueByUrl js c t = Inl TypeError"
    by (rule not_well_formed_throws[OF assms(1)])
  moreover from False have "\<not> well_formed js t exts'"
    using sibling_perm_well_formed[OF assms(3)] by simp
  then have "getExtensionValueByUrl js c' t = Inl TypeError"
    by (rule not_well_formed_throws[OF assms(2)])
  ultimately show ?thesis by simp
qed

subsection \<open>Absent and malformed parts\<close>

lemma matches_as_empty:
  "matches js t (Extension u cs' (as_empty_vcc v)) = matches js t (Extension u cs v)"
  by (simp add: matches_def url_matches_def)

lemma collect_codings_as_empty:
  "collect_codings (Extension u cs' (as_empty_vcc v)) ob = collect_codings (Extension u cs v) ob"
  by (cases v rule: as_empty_vcc.cases) (simp_all add: collect_codings_def)

lemma traversable_as_empty: "traversable (as_empty es) = traversable es"
  by (induction es rule: as_empty.induct) simp_all

lemma forEach_as_empty:
  "forEach collect_codings (filter (matches js t) (spec_nodes (as_empty es))) ob =
   forEach collect_codings (filter (matches js t) (spec_nodes es)) ob"
proof (induction es arbitrary: ob rule: spec_nodes.induct)
  case 1
  show ?case by simp
next
  case (2 rest)
  then show ?case by simp
next
  case (3 u children v rest)
  have m: "matches js t (Extension u (Present (as_empty children)) (as_empty_vcc v)) =
           matches js t (Extension u (Present children) v)"
    by (rule matches_as_empty)
  have c: "collect_codings (Extension u (Present (as_empty children)) (as_empty_vcc v)) ob' =
           collect_codings (Extension u (Present children) v) ob'" for ob'
    by (rule collect_codings_as_empty)
  show ?case
    using "3.IH" m c by (simp add: forEach_append split: sum.splits)
next
  case (4 u v rest)
  have m: "matches js t (Extension u (Present []) (as_empty_vcc v)) =
           matches js t (Extension u Absent v)"
    by (rule matches_as_empty)
  have c: "collect_codings (Extension u (Present []) (as_empty_vcc v)) ob' =
           collect_codings (Extension u Absent v) ob'" for ob'
    by (rule collect_codings_as_empty)
  show ?case using "4.IH" m c by (simp split: sum.splits)
next
  case (5 u b v rest)
  have m: "matches js t (Extension u (Present []) (as_empty_vcc v)) =
           matches js t (Extension u (Malformed b) v)"
    by (rule matches_as_empty)
  have c: "collect_codings (Extension u (Present []) (as_empty_vcc v)) ob' =
           collect_codings (Extension u (Malformed b) v) ob'" for ob'
    by (rule collect_codings_as_empty)
  show ?case using "5.IH" m c by (simp split: sum.splits)
qed

lemma getExtensionValueByUrl_as_empty:
  assumes "concept_extension c = Present exts"
  shows "getExtensionValueByUrl js
           (Concept (concept_code c) (concept_display c) (concept_designation c)
                    (Present (as_empty exts))) t
         = getExtensionValueByUrl js c t"
  using assms
  by (simp add: getExtensionValueByUrl_def findExtensions_eq forEach_as_empty
        traversable_as_empty)

section \<open>The claims about the extension resolver\<close>

text \<open>
  C4, as amended. The resolver returns a result exactly when the Concept's own
  \<^verbatim>\<open>extension\<close> field is an array, no extension array of the tree holds \<^verbatim>\<open>null\<close>, no
  extension has a \<^verbatim>\<open>url\<close> that is truthy without being a string, and no matched extension
  carries a \<^verbatim>\<open>coding\<close> that is truthy without being an array or that is an array holding
  \<^verbatim>\<open>null\<close>; in every other case it throws a TypeError. When the field is an array, the
  call behaves as on the tree in which every nested \<^verbatim>\<open>extension\<close> that is absent or not
  an array, every coded value that is absent or not an object and every absent or falsy
  \<^verbatim>\<open>coding\<close> is replaced by an empty one.
\<close>

theorem getExtensionValueByUrl_returns_iff:
  "((\<exists>r. getExtensionValueByUrl js c t = Inr r) \<longleftrightarrow>
      (\<exists>exts. concept_extension c = Present exts \<and> traversable exts \<and> all_iterable js t exts))
   \<and> ((\<forall>r. getExtensionValueByUrl js c t \<noteq> Inr r) \<longrightarrow> getExtensionValueByUrl js c t = Inl TypeError)
   \<and> (\<forall>exts. concept_extension c = Present exts \<longrightarrow>
         getExtensionValueByUrl js
           (Concept (concept_code c) (concept_display c) (concept_designation c)
                    (Present (as_empty exts))) t
         = getExtensionValueByUrl js c t)"
proof (cases "\<exists>exts. concept_extension c = Present exts")
  case False
  then have "getExtensionValueByUrl js c t = Inl TypeError"
    by (simp add: getExtensionValueByUrl_no_array)
  with False show ?thesis by simp
next
  case True
  then obtain exts where exts: "concept_extension c = Present exts" by blast
  show ?thesis
  proof (cases "well_formed js t exts")
    case True
    then obtain r where "getExtensionValueByUrl js c t = Inr r"
      using well_formed_returns[OF exts] by blast
    with True exts show ?thesis by (simp add: getExtensionValueByUrl_as_empty well_formed_def)
  next
    case False
    then have "getExtensionValueByUrl js c t = Inl TypeError"
      by (rule not_well_formed_throws[OF exts])
    with False exts show ?thesis by (simp add: getExtensionValueByUrl_as_empty well_formed_def)
  qed
qed

theorem getExtensionValueByUrl_returns_iff_witness:
  "(\<exists>exts. concept_extension ex_sparse = Present exts \<and> traversable exts
           \<and> all_iterable ascii ''http://x/disease'' exts)
   \<and> getExtensionValueByUrl ascii ex_sparse ''http://x/disease'' = Inr [[(''D1'', ''Measles'')]]
   \<and> getExtensionValueByUrl ascii (Concept ''V002'' ''Vaccine B'' None (Present (as_empty ex_sparse_exts)))
        ''http://x/disease'' = Inr [[(''D1'', ''Measles'')]]"
proof -
  have e: "concept_extension ex_sparse = Present ex_sparse_exts"
    by (simp add: ex_sparse_def)
  have v: "getExtensionValueByUrl ascii ex_sparse ''http://x/disease'' = Inr [[(''D1'', ''Measles'')]]"
    by code_simp
  from getExtensionValueByUrl_returns_iff[of ascii ex_sparse "''http://x/disease''"] e v
  show ?thesis by (simp add: ex_sparse_def)
qed

theorem malformed_extension_trees_raise:
  "getExtensionValueByUrl ascii ex_no_extension ''http://x/disease'' = Inl TypeError
   \<and> getExtensionValueByUrl ascii ex_null_extension ''http://x/disease'' = Inl TypeError
   \<and> getExtensionValueByUrl ascii ex_numeric_url ''http://x/disease'' = Inl TypeError
   \<and> getExtensionValueByUrl ascii ex_coding_object ''http://x/disease'' = Inl TypeError
   \<and> getExtensionValueByUrl ascii ex_null_coding ''http://x/disease'' = Inl TypeError"
proof -
  have "getExtensionValueByUrl ascii ex_no_extension ''http://x/disease'' = Inl TypeError"
    by (simp add: getExtensionValueByUrl_def ex_no_extension_def)
  moreover have "getExtensionValueByUrl ascii ex_null_extension ''http://x/disease'' = Inl TypeError"
    by code_simp
  moreover have "getExtensionValueByUrl ascii ex_numeric_url ''http://x/disease'' = Inl TypeError"
    by code_simp
  moreover have "getExtensionValueByUrl ascii ex_coding_object ''http://x/disease'' = Inl TypeError"
    by code_simp
  moreover have "getExtensionValueByUrl ascii ex_null_coding ''http://x/disease'' = Inl TypeError"
    by code_simp
  ultimately show ?thesis by simp
qed

text \<open>
  C1, as amended. For every Concept and target URL the resolver performs a depth-first
  traversal of the Concept's extension tree, matching each node whose URL equals the
  target after trimming and lower-casing, recursing into child extensions whether or
  not the node matched; it merges the (code, display) pairs of the coded values of the
  matched nodes, except the pairs whose code is \<^verbatim>\<open>__proto__\<close>, into one mapping, a later
  pair overwriting an earlier one with the same code, and returns a single-element
  sequence containing that mapping, or an empty sequence when there is no such pair.
  It does so whenever it returns; it throws a TypeError instead when the Concept's
  \<^verbatim>\<open>extension\<close> is not an array, an extension array of the tree holds \<^verbatim>\<open>null\<close>, a
  \<^verbatim>\<open>url\<close> is truthy without being a string, or a matched node has a \<^verbatim>\<open>coding\<close> that is
  truthy without being an array or that holds \<^verbatim>\<open>null\<close>. (A node whose URL is the empty
  string never matches; this differs from the comparison only for a target that trims
  to the empty string.) When no matched coded value is coded \<^verbatim>\<open>__proto__\<close>, the mapping
  is the merge of all the pairs.
\<close>

theorem getExtensionValueByUrl_meets_spec:
  "(case concept_extension c of
      Present exts \<Rightarrow>
        if well_formed js t exts
        then \<exists>r. getExtensionValueByUrl js c t = Inr r
               \<and> map obj_get r
                   = spec_result (assigned (matched_codings
                        (\<lambda>e. ext_url e \<noteq> Present [] \<and> spec_url_equal js t e) exts))
        else getExtensionValueByUrl js c t = Inl TypeError
    | _ \<Rightarrow> getExtensionValueByUrl js c t = Inl TypeError)
   \<and> (toLowerCase js (trim js t) \<noteq> toLowerCase js (trim js []) \<longrightarrow>
        (\<lambda>e. ext_url e \<noteq> Present [] \<and> spec_url_equal js t e) = spec_url_equal js t)
   \<and> (\<forall>exts. (\<forall>d \<in> set (matched_codings (\<lambda>e. ext_url e \<noteq> Present [] \<and> spec_url_equal js t e) exts).
                  coding_code d \<noteq> ''__proto__'') \<longrightarrow>
         spec_result (assigned (matched_codings
              (\<lambda>e. ext_url e \<noteq> Present [] \<and> spec_url_equal js t e) exts))
         = spec_resolve (\<lambda>e. ext_url e \<noteq> Present [] \<and> spec_url_equal js t e) exts)"
proof (intro conjI)
  have m: "matches js t = (\<lambda>e. ext_url e \<noteq> Present [] \<and> spec_url_equal js t e)"
    by (auto simp: fun_eq_iff matches_def url_matches_def spec_url_equal_def truthy_def
             split: jsfield.splits)
  show "case concept_extension c of
      Present exts \<Rightarrow>
        if well_formed js t exts
        then \<exists>r. getExtensionValueByUrl js c t = Inr r
               \<and> map obj_get r
                   = spec_result (assigned (matched_codings
                        (\<lambda>e. ext_url e \<noteq> Present [] \<and> spec_url_equal js t e) exts))
        else getExtensionValueByUrl js c t = Inl TypeError
    | _ \<Rightarrow> getExtensionValueByUrl js c t = Inl TypeError"
  proof (cases "concept_extension c")
    case Absent
    then show ?thesis by (simp add: getExtensionValueByUrl_def)
  next
    case (Malformed b)
    then show ?thesis by (simp add: getExtensionValueByUrl_def)
  next
    case (Present exts)
    show ?thesis
    proof (cases "well_formed js t exts")
      case True
      then have "\<exists>r. getExtensionValueByUrl js c t = Inr r
               \<and> map obj_get r = spec_result (assigned (matched_codings (matches js t) exts))"
        using well_formed_returns[OF Present] by blast
      with True Present show ?thesis by (simp add: m)
    next
      case False
      then have "getExtensionValueByUrl js c t = Inl TypeError"
        by (rule not_well_formed_throws[OF Present])
      with False Present show ?thesis by simp
    qed
  qed
next
  show "toLowerCase js (trim js t) \<noteq> toLowerCase js (trim js []) \<longrightarrow>
        (\<lambda>e. ext_url e \<noteq> Present [] \<and> spec_url_equal js t e) = spec_url_equal js t"
    by (auto simp: fun_eq_iff spec_url_equal_def)
next
  show "\<forall>exts. (\<forall>d \<in> set (matched_codings (\<lambda>e. ext_url e \<noteq> Present [] \<and> spec_url_equal js t e) exts).
                  coding_code d \<noteq> ''__proto__'') \<longrightarrow>
         spec_result (assigned (matched_codings
              (\<lambda>e. ext_url e \<noteq> Present [] \<and> spec_url_equal js t e) exts))
         = spec_resolve (\<lambda>e. ext_url e \<noteq> Present [] \<and> spec_url_equal js t e) exts"
    by (simp add: spec_resolve_def assigned_all)
qed

theorem getExtensionValueByUrl_meets_spec_witness:
  "concept_extension ex_nested = Present ex_nested_exts
   \<and> well_formed ascii ''http://X/disease'' ex_nested_exts
   \<and> getExtensionValueByUrl ascii ex_nested ''http://X/disease''
       = Inr [[(''7'', ''Seven''), (''D1'', ''Measles (child)''), (''D2'', ''Mumps'')]]
   \<and> (\<exists>r. getExtensionValueByUrl ascii ex_nested ''http://X/disease'' = Inr r
           \<and> map obj_get r = spec_resolve (spec_url_equal ascii ''http://X/disease'') ex_nested_exts)"
proof -
  have e: "concept_extension ex_nested = Present ex_nested_exts"
    by (simp add: ex_nested_def)
  have i: "well_formed ascii ''http://X/disease'' ex_nested_exts"
    by code_simp
  have v: "getExtensionValueByUrl ascii ex_nested ''http://X/disease''
       = Inr [[(''7'', ''Seven''), (''D1'', ''Measles (child)''), (''D2'', ''Mumps'')]]"
    by code_simp
  have n: "toLowerCase ascii (trim ascii ''http://X/disease'') \<noteq> toLowerCase ascii (trim ascii [])"
    by code_simp
  have p: "\<forall>d \<in> set (matched_codings (spec_url_equal ascii ''http://X/disease'') ex_nested_exts).
             coding_code d \<noteq> ''__proto__''"
    by code_simp
  from getExtensionValueByUrl_meets_spec[where js=ascii and t="''http://X/disease''"] n
  have s: "(\<lambda>e. ext_url e \<noteq> Present [] \<and> spec_url_equal ascii ''http://X/disease'' e)
           = spec_url_equal ascii ''http://X/disease''"
    by blast
  from getExtensionValueByUrl_meets_spec[where c=ex_nested and js=ascii and t="''http://X/disease''"] e i p
  have "\<exists>r. getExtensionValueByUrl ascii ex_nested ''http://X/disease'' = Inr r
           \<and> map obj_get r = spec_resolve (spec_url_equal ascii ''http://X/disease'') ex_nested_exts"
    unfolding s by simp metis
  with e i v show ?thesis by simp
qed

theorem proto_coding_is_not_merged:
  "getExtensionValueByUrl ascii ex_proto ''http://x/disease'' = Inr []
   \<and> length (spec_resolve (spec_url_equal ascii ''http://x/disease'') ex_proto_exts) = 1
   \<and> hd (spec_resolve (spec_url_equal ascii ''http://x/disease'') ex_proto_exts) ''__proto__''
       = Some ''Measles''
   \<and> getExtensionValueByUrl ascii ex_coding_string ''http://x/disease'' = Inl TypeError"
proof -
  have "getExtensionValueByUrl ascii ex_proto ''http://x/disease'' = Inr []"
    by code_simp
  moreover have "spec_url_equal ascii ''http://x/disease'' (the (hd ex_proto_exts))"
    by code_simp
  then have "spec_resolve (spec_url_equal ascii ''http://x/disease'') ex_proto_exts
       = [[''__proto__'' \<mapsto> ''Measles'']]"
    by (simp add: ex_proto_exts_def spec_resolve_def spec_result_def spec_merge_def
          matched_codings_def codings_of_def)
  moreover have "getExtensionValueByUrl ascii ex_coding_string ''http://x/disease'' = Inl TypeError"
    by code_simp
  ultimately show ?thesis by simp
qed

text \<open>
  C9, as amended. When no two matched coded values give one code two different displays,
  rearranging siblings anywhere in the tree leaves the result the same mapping (the
  order of its keys apart), and leaves a TypeError a TypeError. In every call a code
  other than \<^verbatim>\<open>__proto__\<close> maps to the display of the last matched coded value with that
  code, in traversal order; no result has a key \<^verbatim>\<open>__proto__\<close>.
\<close>

theorem sibling_order_without_conflicts:
  assumes "concept_extension c = Present exts" and "concept_extension c' = Present exts'"
  shows "(sibling_perm exts exts' \<and> conflict_free (matched_codings (matches js t) exts) \<longrightarrow>
            as_mappings (getExtensionValueByUrl js c' t) = as_mappings (getExtensionValueByUrl js c t))
         \<and> (\<forall>r before d after.
               getExtensionValueByUrl js c t = Inr r
               \<and> matched_codings (matches js t) exts = before @ [d] @ after
               \<and> coding_code d \<notin> coding_code ` set after
               \<and> coding_code d \<noteq> ''__proto__'' \<longrightarrow>
               (\<exists>ob. r = [ob] \<and> obj_get ob (coding_code d) = Some (coding_display d)))
         \<and> (\<forall>r. getExtensionValueByUrl js c t = Inr r \<longrightarrow>
               (\<forall>ob \<in> set r. obj_get ob ''__proto__'' = None))"
proof (intro conjI impI allI)
  assume "sibling_perm exts exts' \<and> conflict_free (matched_codings (matches js t) exts)"
  then show "as_mappings (getExtensionValueByUrl js c' t) = as_mappings (getExtensionValueByUrl js c t)"
    using sibling_perm_as_mappings[OF assms] by blast
next
  fix r before d after
  assume a: "getExtensionValueByUrl js c t = Inr r
             \<and> matched_codings (matches js t) exts = before @ [d] @ after
             \<and> coding_code d \<notin> coding_code ` set after
             \<and> coding_code d \<noteq> ''__proto__''"
  then have "well_formed js t exts"
    using not_well_formed_throws[OF assms(1), of js t] by auto
  then obtain r' where r': "getExtensionValueByUrl js c t = Inr r'"
    "map obj_get r' = spec_result (assigned (matched_codings (matches js t) exts))"
    using well_formed_returns[OF assms(1)] by blast
  have s: "assigned (before @ d # after) = assigned before @ d # assigned after"
    using a by (simp add: assigned_def)
  have n: "coding_code d \<notin> coding_code ` set (assigned after)"
    using a by (auto simp: assigned_def)
  from a r' have m: "map obj_get r = [spec_merge (assigned before @ [d] @ assigned after)]"
    by (simp add: spec_result_def s)
  then obtain ob where ob: "r = [ob]" "obj_get ob = spec_merge (assigned before @ [d] @ assigned after)"
    by (cases r) auto
  have "spec_merge (assigned before @ [d] @ assigned after) (coding_code d) = Some (coding_display d)"
    unfolding spec_merge_def by (rule merge_into_last[OF refl n])
  with ob show "\<exists>ob. r = [ob] \<and> obj_get ob (coding_code d) = Some (coding_display d)"
    by simp
next
  fix r
  assume a: "getExtensionValueByUrl js c t = Inr r"
  then have "well_formed js t exts"
    using not_well_formed_throws[OF assms(1), of js t] by auto
  then obtain r' where r': "getExtensionValueByUrl js c t = Inr r'"
    "list_all (\<lambda>ob. distinct (obj_keys ob)
        \<and> set (obj_keys ob) = coding_code ` set (assigned (matched_codings (matches js t) exts))) r'"
    using well_formed_returns[OF assms(1)] by blast
  with a have "\<forall>ob \<in> set r. ''__proto__'' \<notin> set (obj_keys ob)"
    by (auto simp: list_all_iff assigned_def)
  then show "\<forall>ob \<in> set r. obj_get ob ''__proto__'' = None"
    by (simp add: obj_keys_in_dom)
qed

theorem sibling_order_without_conflicts_witness:
  "concept_extension (Concept ''V'' ''d'' None (Present [Some ex_first, Some ex_third]))
     = Present [Some ex_first, Some ex_third]
   \<and> concept_extension (Concept ''V'' ''d'' None (Present [Some ex_third, Some ex_first]))
     = Present [Some ex_third, Some ex_first]
   \<and> sibling_perm [Some ex_first, Some ex_third] [Some ex_third, Some ex_first]
   \<and> conflict_free (matched_codings (matches ascii ''http://x/disease'') [Some ex_first, Some ex_third])
   \<and> getExtensionValueByUrl ascii (Concept ''V'' ''d'' None (Present [Some ex_first, Some ex_third]))
        ''http://x/disease''
        = Inr [[(''D1'', ''Measles''), (''D2'', ''Mumps'')]]
   \<and> getExtensionValueByUrl ascii (Concept ''V'' ''d'' None (Present [Some ex_third, Some ex_first]))
        ''http://x/disease''
        = Inr [[(''D2'', ''Mumps''), (''D1'', ''Measles'')]]
   \<and> as_mappings (getExtensionValueByUrl ascii
        (Concept ''V'' ''d'' None (Present [Some ex_third, Some ex_first])) ''http://x/disease'')
     = as_mappings (getExtensionValueByUrl ascii
        (Concept ''V'' ''d'' None (Present [Some ex_first, Some ex_third])) ''http://x/disease'')
   \<and> matched_codings (matches ascii ''http://x/disease'') [Some ex_first, Some ex_third]
     = [] @ [Coding ''sct'' ''D1'' ''Measles''] @ [Coding ''sct'' ''D2'' ''Mumps'']
   \<and> (\<exists>ob. [[(''D1'', ''Measles''), (''D2'', ''Mumps'')]] = [ob] \<and> obj_get ob ''D1'' = Some ''Measles'')"
proof -
  let ?c = "Concept ''V'' ''d'' None (Present [Some ex_first, Some ex_third])"
  let ?c' = "Concept ''V'' ''d'' None (Present [Some ex_third, Some ex_first])"
  have p: "sibling_perm [Some ex_first, Some ex_third] [Some ex_third, Some ex_first]"
    by (rule sibling_perm.swap)
  have f: "conflict_free (matched_codings (matches ascii ''http://x/disease'') [Some ex_first, Some ex_third])"
    by code_simp
  have v1: "getExtensionValueByUrl ascii ?c ''http://x/disease''
        = Inr [[(''D1'', ''Measles''), (''D2'', ''Mumps'')]]"
    by code_simp
  have v2: "getExtensionValueByUrl ascii ?c' ''http://x/disease''
        = Inr [[(''D2'', ''Mumps''), (''D1'', ''Measles'')]]"
    by code_simp
  have mc: "matched_codings (matches ascii ''http://x/disease'') [Some ex_first, Some ex_third]
     = [] @ [Coding ''sct'' ''D1'' ''Measles''] @ [Coding ''sct'' ''D2'' ''Mumps'']"
    by code_simp
  have k: "coding_code (Coding ''sct'' ''D1'' ''Measles'') \<notin> coding_code ` set [Coding ''sct'' ''D2'' ''Mumps'']
           \<and> coding_code (Coding ''sct'' ''D1'' ''Measles'') \<noteq> ''__proto__''"
    by simp
  note t = sibling_order_without_conflicts[where c="?c" and exts="[Some ex_first, Some ex_third]"
        and c'="?c'" and exts'="[Some ex_third, Some ex_first]" and js=ascii
        and t="''http://x/disease''"]
  from t p f
  have 1: "as_mappings (getExtensionValueByUrl ascii ?c' ''http://x/disease'')
     = as_mappings (getExtensionValueByUrl ascii ?c ''http://x/disease'')"
    by simp
  from t v1 mc k
  have 2: "\<exists>ob. [[(''D1'', ''Measles''), (''D2'', ''Mumps'')]] = [ob] \<and> obj_get ob ''D1'' = Some ''Measles''"
    by (simp add: obj_get_def)
  from p f v1 v2 mc 1 2 show ?thesis by simp
qed

theorem sibling_order_matters:
  "sibling_perm [Some ex_first, Some ex_second] [Some ex_second, Some ex_first]
   \<and> getExtensionValueByUrl ascii (Concept ''V'' ''d'' None (Present [Some ex_first, Some ex_second]))
        ''http://x/disease''
        = Inr [[(''D1'', ''Rougeole'')]]
   \<and> getExtensionValueByUrl ascii (Concept ''V'' ''d'' None (Present [Some ex_second, Some ex_first]))
        ''http://x/disease''
        = Inr [[(''D1'', ''Measles'')]]"
proof -
  have "sibling_perm [Some ex_first, Some ex_second] [Some ex_second, Some ex_first]"
    by (rule sibling_perm.swap)
  moreover have "getExtensionValueByUrl ascii
        (Concept ''V'' ''d'' None (Present [Some ex_first, Some ex_second])) ''http://x/disease''
        = Inr [[(''D1'', ''Rougeole'')]]"
    by code_simp
  moreover have "getExtensionValueByUrl ascii
        (Concept ''V'' ''d'' None (Present [Some ex_second, Some ex_first])) ''http://x/disease''
        = Inr [[(''D1'', ''Measles'')]]"
    by code_simp
  ultimately show ?thesis by simp
qed

section \<open>Properties of the flattener\<close>

lemma obj_overwrite_overwrite:
  "obj_overwrite k v' (obj_overwrite k v ob) = obj_overwrite k v' ob"
  by (induction ob) auto

lemma obj_overwrite_insert_index:
  "k \<notin> set (obj_keys ob) \<Longrightarrow> obj_overwrite k v' (obj_insert_index k v ob) = obj_insert_index k v' ob"
  by (induction ob) (auto simp: obj_keys_def)

lemma obj_overwrite_append:
  "k \<notin> set (obj_keys ob) \<Longrightarrow> obj_overwrite k v' (ob @ [(k, v)]) = ob @ [(k, v')]"
  by (induction ob) (auto simp: obj_keys_def)

lemma obj_put_twice: "obj_put (obj_put ob k v) k v' = obj_put ob k v'"
proof -
  have "k \<in> set (obj_keys (obj_put ob k v))" by (simp add: set_obj_keys_put)
  then have "obj_put (obj_put ob k v) k v' = obj_overwrite k v' (obj_put ob k v)"
    by (simp add: obj_put_def)
  also have "\<dots> = obj_put ob k v'"
    by (simp add: obj_put_def obj_overwrite_overwrite obj_overwrite_insert_index
          obj_overwrite_append)
  finally show ?thesis .
qed

lemma obj_set_twice: "obj_set (obj_set ob k v) k v' = obj_set ob k v'"
  by (simp add: obj_set_def obj_put_twice)

lemma not_index_MAHEN: "\<not> is_array_index ''MAHEN''" "\<not> is_array_index ''MAHFR''"
  "\<not> is_array_index ''disease''" "\<not> is_array_index ''MAH''"
  by (simp_all add: is_array_index_def is_digit_def)

lemma parse_concept_eq:
  "parse_concept js api dl ml c table =
     (case bilingual_entry js api dl ml c of
        Inl e \<Rightarrow> Inl e
      | Inr r \<Rightarrow> Inr (obj_set table (concept_code c) r))"
  by (simp add: parse_concept_def bilingual_entry_def Let_def obj_set_twice truthy_def
        obj_set_def[of _ "''MAHEN''"] obj_set_def[of _ "''MAHFR''"]
        obj_put_def[of _ "''MAHEN''"] obj_put_def[of _ "''MAHFR''"] obj_keys_def not_index_MAHEN
      split: sum.splits)

lemma parse_concept_simple_eq:
  "parse_concept_simple js c table =
     (case simple_entry js c of
        Inl e \<Rightarrow> Inl e
      | Inr r \<Rightarrow> Inr (obj_set table (concept_code c) r))"
  by (simp add: parse_concept_simple_def simple_entry_def Let_def obj_set_twice
        obj_set_def[of _ "''disease''"] obj_set_def[of _ "''MAH''"]
        obj_put_def[of _ "''disease''"] obj_put_def[of _ "''MAH''"] obj_keys_def not_index_MAHEN
      split: sum.splits)

lemma forEach_concat:
  "forEach (\<lambda>x. forEach f (g x)) xs s = forEach f (concat (map g xs)) s"
  by (induction xs arbitrary: s) (auto simp: forEach_append split: sum.splits)

lemma parse_include_eq: "parse_include f = (\<lambda>inc. forEach f (include_concepts inc))"
  by (auto simp: parse_include_def include_concepts_def fun_eq_iff split: jsfield.splits)

lemma parse_entry_eq:
  "parse_entry f e =
     forEach f (if isValueSet (vs_id (entry_resource e))
                then valueset_concepts (entry_resource e) else [])"
  by (auto simp: parse_entry_def valueset_concepts_def fun_eq_iff parse_include_eq Let_def
        forEach_concat[symmetric] split: jsfield.splits)

lemma forEach_parse_entry:
  "forEach (parse_entry f) (data_entry data) table = forEach f (processed_concepts data) table"
  unfolding processed_concepts_def parse_entry_eq by (rule forEach_concat)

text \<open>A loop that stores one record per element under the element's key.\<close>

lemma forEach_store_returns:
  assumes "\<And>c t. f c t = (case entry c of Inl e \<Rightarrow> Inl e | Inr r \<Rightarrow> Inr (obj_set t (key c) r))"
      and "\<forall>c\<in>set cs. \<exists>r. entry c = Inr r"
  shows "\<exists>t'. forEach f cs t = Inr t'"
  using assms(2)
proof (induction cs arbitrary: t)
  case Nil
  show ?case by simp
next
  case (Cons c cs)
  then obtain r where "entry c = Inr r" by auto
  then have "f c t = Inr (obj_set t (key c) r)" by (simp add: assms(1))
  moreover have "\<exists>t'. forEach f cs (obj_set t (key c) r) = Inr t'"
    using Cons by simp
  ultimately show ?case by simp
qed

lemma forEach_store_keys:
  assumes "\<And>c t. f c t = (case entry c of Inl e \<Rightarrow> Inl e | Inr r \<Rightarrow> Inr (obj_set t (key c) r))"
      and "forEach f cs t = Inr t'"
  shows "set (obj_keys t') = set (obj_keys t) \<union> (key ` set cs - {''__proto__''})
         \<and> (distinct (obj_keys t) \<longrightarrow> distinct (obj_keys t'))
         \<and> (\<forall>c\<in>set cs. \<exists>r. entry c = Inr r)"
  using assms(2)
proof (induction cs arbitrary: t)
  case Nil
  then show ?case by simp
next
  case (Cons c cs)
  show ?case
  proof (cases "entry c")
    case (Inl e)
    then have "f c t = Inl e" by (simp add: assms(1))
    with Cons.prems show ?thesis by simp
  next
    case (Inr r)
    then have "f c t = Inr (obj_set t (key c) r)" by (simp add: assms(1))
    with Cons.prems have "forEach f cs (obj_set t (key c) r) = Inr t'" by simp
    from Cons.IH[OF this] Inr show ?thesis
      by (auto simp: set_obj_keys_set distinct_obj_keys_set)
  qed
qed

lemma forEach_store_other:
  assumes "\<And>c t. f c t = (case entry c of Inl e \<Rightarrow> Inl e | Inr r \<Rightarrow> Inr (obj_set t (key c) r))"
      and "forEach f cs t = Inr t'" and "k \<notin> key ` set cs"
  shows "obj_get t' k = obj_get t k"
  using assms(2,3)
proof (induction cs arbitrary: t)
  case Nil
  then show ?case by simp
next
  case (Cons c cs)
  show ?case
  proof (cases "entry c")
    case (Inl e)
    then have "f c t = Inl e" by (simp add: assms(1))
    with Cons.prems show ?thesis by simp
  next
    case (Inr r)
    then have "f c t = Inr (obj_set t (key c) r)" by (simp add: assms(1))
    with Cons.prems have "forEach f cs (obj_set t (key c) r) = Inr t'" by simp
    from Cons.IH[OF this] Cons.prems(2) show ?thesis
      by (simp add: obj_get_set)
  qed
qed

lemma forEach_store_last:
  assumes "\<And>c t. f c t = (case entry c of Inl e \<Rightarrow> Inl e | Inr r \<Rightarrow> Inr (obj_set t (key c) r))"
      and "forEach f (before @ [c] @ after) t = Inr t'" and "key c \<notin> key ` set after"
      and "key c \<noteq> ''__proto__''"
  shows "\<exists>r. entry c = Inr r \<and> obj_get t' (key c) = Some r"
proof -
  from assms(2) obtain t1 where t1: "forEach f before t = Inr t1"
    "forEach f ([c] @ after) t1 = Inr t'"
    by (auto simp: forEach_append split: sum.splits)
  from t1(2) obtain r where r: "entry c = Inr r"
    by (cases "entry c") (simp_all add: assms(1))
  then have "f c t1 = Inr (obj_set t1 (key c) r)" by (simp add: assms(1))
  with t1(2) have "forEach f after (obj_set t1 (key c) r) = Inr t'" by simp
  from forEach_store_other[OF assms(1) this assms(3)]
  have "obj_get t' (key c) = Some r" using assms(4) by (simp add: obj_get_set)
  with r show ?thesis by simp
qed

lemma forEach_store_proto:
  assumes "\<And>c t. f c t = (case entry c of Inl e \<Rightarrow> Inl e | Inr r \<Rightarrow> Inr (obj_set t (key c) r))"
      and "forEach f cs t = Inr t'"
  shows "obj_get t' ''__proto__'' = obj_get t ''__proto__''"
  using assms(2)
proof (induction cs arbitrary: t)
  case Nil
  then show ?case by simp
next
  case (Cons c cs)
  show ?case
  proof (cases "entry c")
    case (Inl e)
    then have "f c t = Inl e" by (simp add: assms(1))
    with Cons.prems show ?thesis by simp
  next
    case (Inr r)
    then have "f c t = Inr (obj_set t (key c) r)" by (simp add: assms(1))
    with Cons.prems have "forEach f cs (obj_set t (key c) r) = Inr t'" by simp
    from Cons.IH[OF this] show ?thesis
      by (simp add: obj_get_set)
  qed
qed

lemma find_first:
  assumes "list_all (\<lambda>x. \<not> P x) before" and "P d"
  shows "find P (before @ [d] @ after) = Some d"
  using assms by (induction before) simp_all

lemma find_none: "list_all (\<lambda>x. \<not> P x) xs \<Longrightarrow> find P xs = None"
  by (induction xs) simp_all

lemma resolvable_entries:
  assumes "resolvable js api c"
  shows "\<exists>r. bilingual_entry js api dl ml c = Inr r"
proof -
  from assms obtain exts where e: "concept_extension c = Present exts"
    "well_formed js (disease_url api) exts" "well_formed js (mah_url api) exts"
    by (auto simp: resolvable_def split: jsfield.splits)
  obtain d where "getExtensionValueByUrl js c (disease_url api) = Inr d"
    using well_formed_returns[OF e(1) e(2)] by blast
  moreover obtain m where "getExtensionValueByUrl js c (mah_url api) = Inr m"
    using well_formed_returns[OF e(1) e(3)] by blast
  ultimately show ?thesis by (simp add: bilingual_entry_def)
qed

lemma resolvable_simple_entries:
  assumes "resolvable js simple_api c"
  shows "\<exists>r. simple_entry js c = Inr r"
proof -
  from assms obtain exts where e: "concept_extension c = Present exts"
    "well_formed js (disease_url simple_api) exts" "well_formed js (mah_url simple_api) exts"
    by (auto simp: resolvable_def split: jsfield.splits)
  obtain d where "getExtensionValueByUrl js c (disease_url simple_api) = Inr d"
    using well_formed_returns[OF e(1) e(2)] by blast
  moreover obtain m where "getExtensionValueByUrl js c (mah_url simple_api) = Inr m"
    using well_formed_returns[OF e(1) e(3)] by blast
  ultimately show ?thesis by (simp add: simple_entry_def)
qed

lemma processed_concepts_set:
  "set (processed_concepts data) =
     {c. \<exists>e\<in>set (data_entry data). isValueSet (vs_id (entry_resource e))
                                    \<and> c \<in> set (valueset_concepts (entry_resource e))}"
  by (auto simp: processed_concepts_def split: if_splits)

lemma parseNVCBundle_records:
  assumes "parseNVCBundle js api data dl ml = Inr table" and "obj_get table k = Some r"
  shows "\<exists>c\<in>set (processed_concepts data). concept_code c = k \<and> bilingual_entry js api dl ml c = Inr r"
proof -
  from assms(1) have f: "forEach (parse_concept js api dl ml) (processed_concepts data) [] = Inr table"
    by (simp add: parseNVCBundle_def forEach_parse_entry)
  note keys = forEach_store_keys[where f="parse_concept js api dl ml"
      and entry="bilingual_entry js api dl ml" and key=concept_code, OF parse_concept_eq f]
  have e: "obj_keys ([] :: lookup_table) = []" by (simp add: obj_keys_def)
  from assms(2) have "k \<in> set (obj_keys table)"
    by (auto simp: obj_get_def obj_keys_def dest: map_of_SomeD intro: rev_image_eqI)
  then have k: "k \<in> concept_code ` set (processed_concepts data)" "k \<noteq> ''__proto__''"
    using keys by (simp_all add: e)
  then obtain c0 where "c0 \<in> set (processed_concepts data)" "concept_code c0 = k" by blast
  then obtain before c after where split: "processed_concepts data = before @ [c] @ after"
    "concept_code c = k" "concept_code c \<notin> concept_code ` set after"
    using last_with_key[of c0 "processed_concepts data" concept_code] by auto
  have "concept_code c \<noteq> ''__proto__''" using k(2) split(2) by simp
  from forEach_store_last[where f="parse_concept js api dl ml"
      and entry="bilingual_entry js api dl ml" and key=concept_code,
      OF parse_concept_eq f[unfolded split(1)] split(3) this]
  have "bilingual_entry js api dl ml c = Inr r" using assms(2) split(2) by auto
  moreover have "c \<in> set (processed_concepts data)" using split(1) by simp
  ultimately show ?thesis using split(2) by blast
qed

section \<open>The claims about display names and the flattener\<close>

text \<open>
  C5, as amended. A Designation matches when its language tag equals the requested
  language and its use descriptor is present with the requested use-code and the
  naming-system URL. When no Designation matches, display selection returns the raw
  display string; otherwise it looks at the first matching Designation only, and returns
  its value when that is not the empty string and the raw display string when it is.
  The flattener selects with \<open>en\<close>, \<open>enDisplayTerm\<close> and with \<open>fr\<close>, \<open>frDisplayTerm\<close>.
\<close>

theorem display_selection_exact:
  "(designation_matches lang code d \<longleftrightarrow>
      desig_language d = lang
      \<and> (\<exists>u. desig_use d = Some u \<and> use_code u = code \<and> use_system u = naming_system))
   \<and> (list_all (\<lambda>d. \<not> designation_matches lang code d) (designations_of c) \<longrightarrow>
         display_selection c lang code = concept_display c)
   \<and> (\<forall>before d after.
         designations_of c = before @ [d] @ after
         \<and> list_all (\<lambda>d. \<not> designation_matches lang code d) before
         \<and> designation_matches lang code d \<longrightarrow>
         display_selection c lang code
           = (if desig_value d = [] then concept_display c else desig_value d))
   \<and> displayEN_of c = display_selection c ''en'' ''enDisplayTerm''
   \<and> displayFR_of c = display_selection c ''fr'' ''frDisplayTerm''"
proof -
  have sel: "display_selection c lang code =
      or_else (map_option desig_value (find (designation_matches lang code) (designations_of c)))
              (concept_display c)"
    by (simp add: display_selection_def getDisplayName_def designations_of_def
          split: option.splits)
  have 1: "designation_matches lang code d \<longleftrightarrow>
      desig_language d = lang
      \<and> (\<exists>u. desig_use d = Some u \<and> use_code u = code \<and> use_system u = naming_system)"
    by (auto simp: designation_matches_def split: option.splits)
  have 2: "list_all (\<lambda>d. \<not> designation_matches lang code d) (designations_of c) \<longrightarrow>
         display_selection c lang code = concept_display c"
    by (simp add: sel find_none or_else_def)
  have 3: "designations_of c = before @ [d] @ after
         \<and> list_all (\<lambda>d. \<not> designation_matches lang code d) before
         \<and> designation_matches lang code d \<longrightarrow>
         display_selection c lang code
           = (if desig_value d = [] then concept_display c else desig_value d)"
    for before d after
    using find_first[of "designation_matches lang code" before d after]
    by (auto simp: sel or_else_def truthy_def)
  have 4: "displayEN_of c = display_selection c ''en'' ''enDisplayTerm''"
    "displayFR_of c = display_selection c ''fr'' ''frDisplayTerm''"
    by (simp_all add: displayEN_of_def displayFR_of_def)
  show ?thesis
    using 1 2 3 4 by blast
qed

theorem display_selection_exact_witness:
  "designations_of ex_alpha = [] @ [Designation ''en'' (Some ex_en_use) ''Vaccine Alpha''] @ []
   \<and> designation_matches ''en'' ''enDisplayTerm'' (Designation ''en'' (Some ex_en_use) ''Vaccine Alpha'')
   \<and> list_all (\<lambda>d. \<not> designation_matches ''fr'' ''frDisplayTerm'' d) (designations_of ex_alpha)
   \<and> displayEN_of ex_alpha = ''Vaccine Alpha''
   \<and> displayFR_of ex_alpha = ''Vaccine A''"
proof -
  let ?d = "Designation ''en'' (Some ex_en_use) ''Vaccine Alpha''"
  have d: "designations_of ex_alpha = [] @ [?d] @ []"
    by (simp add: designations_of_def ex_alpha_def)
  have m: "designation_matches ''en'' ''enDisplayTerm'' ?d"
    by (simp add: designation_matches_def ex_en_use_def)
  have b: "list_all (\<lambda>d. \<not> designation_matches ''en'' ''enDisplayTerm'' d) []"
    by simp
  have n: "list_all (\<lambda>d. \<not> designation_matches ''fr'' ''frDisplayTerm'' d) (designations_of ex_alpha)"
    by (simp add: designations_of_def ex_alpha_def designation_matches_def)
  have "displayEN_of ex_alpha = (if desig_value ?d = [] then concept_display ex_alpha else desig_value ?d)"
    using display_selection_exact[of "''en''" "''enDisplayTerm''" ?d ex_alpha] d m b by metis
  then have en: "displayEN_of ex_alpha = ''Vaccine Alpha''" by simp
  have "displayFR_of ex_alpha = concept_display ex_alpha"
    using display_selection_exact[of "''fr''" "''frDisplayTerm''" ?d ex_alpha] n by metis
  then have fr: "displayFR_of ex_alpha = ''Vaccine A''" by (simp add: ex_alpha_def)
  from d m n en fr show ?thesis by blast
qed

theorem empty_designation_value_falls_back:
  "find (designation_matches ''en'' ''enDisplayTerm'') (designations_of ex_blank_value)
     = Some (Designation ''en'' (Some ex_en_use) [])
   \<and> displayEN_of ex_blank_value = ''Vaccine A''
   \<and> spec_display_selection ex_blank_value ''en'' ''enDisplayTerm'' = []"
  by (simp add: designations_of_def ex_blank_value_def designation_matches_def ex_en_use_def
        displayEN_of_def display_selection_def getDisplayName_def or_else_def truthy_def
        spec_display_selection_def)

text \<open>
  C2, as amended. In the simpler variant the record of a processed Concept always carries
  \<open>displayName\<close>, and carries \<open>disease\<close> (and \<open>MAH\<close>) exactly when the corresponding
  resolution returned an entry. In the bilingual variant the record always carries
  \<open>displayEN\<close>, \<open>displayFR\<close>, \<open>diseaseEN\<close> and \<open>diseaseFR\<close>, the two disease fields being
  empty arrays when the disease extension did not resolve; it carries \<open>MAHEN\<close> and
  \<open>MAHFR\<close> only when the MAH extension resolved. The record is the one the flattener
  assigns under the Concept's code, which the table then holds under that code (unless
  the code is \<^verbatim>\<open>__proto__\<close>, under which an assignment creates no entry). Either variant
  processes every Concept on which the resolver does not throw.
\<close>

theorem record_fields:
  "(\<forall>table'. parse_concept js api dl ml c table = Inr table' \<longrightarrow>
      (\<exists>r disease MAH en fr.
         bilingual_entry js api dl ml c = Inr r
         \<and> table' = obj_set table (concept_code c) r
         \<and> (concept_code c \<noteq> ''__proto__'' \<longrightarrow> obj_get table' (concept_code c) = Some r)
         \<and> getExtensionValueByUrl js c (disease_url api) = Inr disease
         \<and> getExtensionValueByUrl js c (mah_url api) = Inr MAH
         \<and> obj_get r ''displayEN'' = Some (JStr (displayEN_of c))
         \<and> obj_get r ''displayFR'' = Some (JStr (displayFR_of c))
         \<and> obj_get r ''diseaseEN'' = Some (JObjs en)
         \<and> obj_get r ''diseaseFR'' = Some (JObjs fr)
         \<and> (disease = [] \<longrightarrow> en = [] \<and> fr = [])
         \<and> (MAH = [] \<longrightarrow> ''MAHEN'' \<notin> set (obj_keys r) \<and> ''MAHFR'' \<notin> set (obj_keys r))))
   \<and> (\<forall>table'. parse_concept_simple js c table = Inr table' \<longrightarrow>
      (\<exists>r disease MAH.
         simple_entry js c = Inr r
         \<and> table' = obj_set table (concept_code c) r
         \<and> (concept_code c \<noteq> ''__proto__'' \<longrightarrow> obj_get table' (concept_code c) = Some r)
         \<and> getExtensionValueByUrl js c (disease_url simple_api) = Inr disease
         \<and> getExtensionValueByUrl js c (mah_url simple_api) = Inr MAH
         \<and> obj_get r ''displayName'' = Some (JStr (concept_display c))
         \<and> (''disease'' \<in> set (obj_keys r) \<longleftrightarrow> disease \<noteq> [])
         \<and> (''MAH'' \<in> set (obj_keys r) \<longleftrightarrow> MAH \<noteq> [])))
   \<and> (resolvable js api c \<longrightarrow> (\<exists>table'. parse_concept js api dl ml c table = Inr table'))
   \<and> (resolvable js simple_api c \<longrightarrow> (\<exists>table'. parse_concept_simple js c table = Inr table'))"
proof (intro conjI allI impI)
  fix table'
  assume "parse_concept js api dl ml c table = Inr table'"
  then obtain r where r: "bilingual_entry js api dl ml c = Inr r"
    "table' = obj_set table (concept_code c) r"
    by (auto simp: parse_concept_eq split: sum.splits)
  from r(1) obtain disease MAH where res:
    "getExtensionValueByUrl js c (disease_url api) = Inr disease"
    "getExtensionValueByUrl js c (mah_url api) = Inr MAH"
    by (auto simp: bilingual_entry_def split: sum.splits)
  let ?en = "disease_names names_en dl disease"
  let ?fr = "disease_names names_fr dl disease"
  have "concept_code c \<noteq> ''__proto__'' \<longrightarrow> obj_get table' (concept_code c) = Some r"
    using r(2) by (simp add: obj_get_set)
  moreover have "obj_get r ''displayEN'' = Some (JStr (displayEN_of c))"
    "obj_get r ''displayFR'' = Some (JStr (displayFR_of c))"
    "obj_get r ''diseaseEN'' = Some (JObjs ?en)"
    "obj_get r ''diseaseFR'' = Some (JObjs ?fr)"
    using r(1) res by (auto simp: bilingual_entry_def obj_get_def)
  moreover have "disease = [] \<longrightarrow> ?en = [] \<and> ?fr = []"
    by (simp add: disease_names_def)
  moreover have "MAH = [] \<longrightarrow> ''MAHEN'' \<notin> set (obj_keys r) \<and> ''MAHFR'' \<notin> set (obj_keys r)"
    using r(1) res by (auto simp: bilingual_entry_def obj_keys_def mah_name_def)
  ultimately show "\<exists>r disease MAH en fr.
         bilingual_entry js api dl ml c = Inr r
         \<and> table' = obj_set table (concept_code c) r
         \<and> (concept_code c \<noteq> ''__proto__'' \<longrightarrow> obj_get table' (concept_code c) = Some r)
         \<and> getExtensionValueByUrl js c (disease_url api) = Inr disease
         \<and> getExtensionValueByUrl js c (mah_url api) = Inr MAH
         \<and> obj_get r ''displayEN'' = Some (JStr (displayEN_of c))
         \<and> obj_get r ''displayFR'' = Some (JStr (displayFR_of c))
         \<and> obj_get r ''diseaseEN'' = Some (JObjs en)
         \<and> obj_get r ''diseaseFR'' = Some (JObjs fr)
         \<and> (disease = [] \<longrightarrow> en = [] \<and> fr = [])
         \<and> (MAH = [] \<longrightarrow> ''MAHEN'' \<notin> set (obj_keys r) \<and> ''MAHFR'' \<notin> set (obj_keys r))"
    using res r by blast
next
  fix table'
  assume "parse_concept_simple js c table = Inr table'"
  then obtain r where r: "simple_entry js c = Inr r"
    "table' = obj_set table (concept_code c) r"
    by (auto simp: parse_concept_simple_eq split: sum.splits)
  from r(1) obtain disease MAH where res:
    "getExtensionValueByUrl js c (disease_url simple_api) = Inr disease"
    "getExtensionValueByUrl js c (mah_url simple_api) = Inr MAH"
    by (auto simp: simple_entry_def split: sum.splits)
  have "concept_code c \<noteq> ''__proto__'' \<longrightarrow> obj_get table' (concept_code c) = Some r"
    using r(2) by (simp add: obj_get_set)
  moreover have "obj_get r ''displayName'' = Some (JStr (concept_display c))"
    using r(1) res by (auto simp: simple_entry_def obj_get_def)
  moreover have "''disease'' \<in> set (obj_keys r) \<longleftrightarrow> disease \<noteq> []"
    using r(1) res by (auto simp: simple_entry_def obj_keys_def)
  moreover have "''MAH'' \<in> set (obj_keys r) \<longleftrightarrow> MAH \<noteq> []"
    using r(1) res by (auto simp: simple_entry_def obj_keys_def)
  ultimately show "\<exists>r disease MAH.
         simple_entry js c = Inr r
         \<and> table' = obj_set table (concept_code c) r
         \<and> (concept_code c \<noteq> ''__proto__'' \<longrightarrow> obj_get table' (concept_code c) = Some r)
         \<and> getExtensionValueByUrl js c (disease_url simple_api) = Inr disease
         \<and> getExtensionValueByUrl js c (mah_url simple_api) = Inr MAH
         \<and> obj_get r ''displayName'' = Some (JStr (concept_display c))
         \<and> (''disease'' \<in> set (obj_keys r) \<longleftrightarrow> disease \<noteq> [])
         \<and> (''MAH'' \<in> set (obj_keys r) \<longleftrightarrow> MAH \<noteq> [])"
    using res r by blast
next
  assume "resolvable js api c"
  then show "\<exists>table'. parse_concept js api dl ml c table = Inr table'"
    using resolvable_entries[of js api c dl ml] by (auto simp: parse_concept_eq)
next
  assume "resolvable js simple_api c"
  then show "\<exists>table'. parse_concept_simple js c table = Inr table'"
    using resolvable_simple_entries[of js c] by (auto simp: parse_concept_simple_eq)
qed

theorem record_fields_witness:
  "resolvable ascii ex_api ex_beta \<and> resolvable ascii simple_api ex_alpha
   \<and> parse_concept ascii ex_api ex_disease_lookup [] ex_beta []
       = Inr [(''V002'', [(''displayEN'', JStr ''Vaccine B''), (''displayFR'', JStr ''Vaccine B''),
                          (''diseaseEN'', JObjs [[(''D1'', ''Measles'')]]),
                          (''diseaseFR'', JObjs [[(''D1'', ''Rougeole'')]]),
                          (''MAHEN'', JStr ''Pfizer (raw)''), (''MAHFR'', JStr ''Pfizer (raw)'')])]
   \<and> parse_concept_simple ascii ex_alpha [] = Inr [(''V001'', [(''displayName'', JStr ''Vaccine A'')])]
   \<and> (\<exists>table'. parse_concept ascii ex_api ex_disease_lookup [] ex_beta [] = Inr table')
   \<and> (\<exists>table'. parse_concept_simple ascii ex_alpha [] = Inr table')"
proof -
  have 1: "resolvable ascii ex_api ex_beta" by code_simp
  have 2: "resolvable ascii simple_api ex_alpha" by code_simp
  have 3: "parse_concept ascii ex_api ex_disease_lookup [] ex_beta []
       = Inr [(''V002'', [(''displayEN'', JStr ''Vaccine B''), (''displayFR'', JStr ''Vaccine B''),
                          (''diseaseEN'', JObjs [[(''D1'', ''Measles'')]]),
                          (''diseaseFR'', JObjs [[(''D1'', ''Rougeole'')]]),
                          (''MAHEN'', JStr ''Pfizer (raw)''), (''MAHFR'', JStr ''Pfizer (raw)'')])]"
    by code_simp
  have 4: "parse_concept_simple ascii ex_alpha [] = Inr [(''V001'', [(''displayName'', JStr ''Vaccine A'')])]"
    by code_simp
  from record_fields[of ascii ex_api ex_disease_lookup "[]" ex_beta "[]"] 1
  have 5: "\<exists>table'. parse_concept ascii ex_api ex_disease_lookup [] ex_beta [] = Inr table'" by blast
  from record_fields[of ascii ex_api ex_disease_lookup "[]" ex_alpha "[]"] 2
  have 6: "\<exists>table'. parse_concept_simple ascii ex_alpha [] = Inr table'" by blast
  from 1 2 3 4 5 6 show ?thesis by blast
qed

theorem unresolved_disease_fields_present:
  "getExtensionValueByUrl ascii ex_alpha (disease_url ex_api) = Inr []
   \<and> parse_concept ascii ex_api [] [] ex_alpha []
       = Inr [(''V001'', [(''displayEN'', JStr ''Vaccine Alpha''), (''displayFR'', JStr ''Vaccine A''),
                          (''diseaseEN'', JObjs []), (''diseaseFR'', JObjs [])])]"
proof -
  have "getExtensionValueByUrl ascii ex_alpha (disease_url ex_api) = Inr []" by code_simp
  moreover have "parse_concept ascii ex_api [] [] ex_alpha []
       = Inr [(''V001'', [(''displayEN'', JStr ''Vaccine Alpha''), (''displayFR'', JStr ''Vaccine A''),
                          (''diseaseEN'', JObjs []), (''diseaseFR'', JObjs [])])]"
    by code_simp
  ultimately show ?thesis by simp
qed

text \<open>
  C7, as amended. Whenever the flattener returns a table, the keys of the table are
  exactly the codes other than \<^verbatim>\<open>__proto__\<close> of the Concepts of the ValueSets whose id is
  \<open>Generic\<close>, \<open>Tradename\<close> or \<open>AntigenIgAntitoxin\<close>, each key once, and every record of
  the table is the record of such a Concept; a Concept of another ValueSet produces no
  entry, and neither does a Concept whose code is \<^verbatim>\<open>__proto__\<close>. The flattener returns a
  table when the resolver throws on none of the Concepts of those ValueSets.
\<close>

theorem table_keys_are_recognised_codes:
  "(\<forall>table. parseNVCBundle js api data dl ml = Inr table \<longrightarrow>
      set (obj_keys table)
        = {concept_code c |c e. e \<in> set (data_entry data)
                                \<and> isValueSet (vs_id (entry_resource e))
                                \<and> c \<in> set (valueset_concepts (entry_resource e))
                                \<and> concept_code c \<noteq> ''__proto__''}
      \<and> distinct (obj_keys table)
      \<and> (\<forall>k r. obj_get table k = Some r \<longrightarrow>
            (\<exists>c e. e \<in> set (data_entry data) \<and> isValueSet (vs_id (entry_resource e))
                    \<and> c \<in> set (valueset_concepts (entry_resource e))
                    \<and> concept_code c = k \<and> bilingual_entry js api dl ml c = Inr r)))
   \<and> (list_all (resolvable js api) (processed_concepts data) \<longrightarrow>
        (\<exists>table. parseNVCBundle js api data dl ml = Inr table))"
proof (intro conjI allI impI)
  fix table
  assume p: "parseNVCBundle js api data dl ml = Inr table"
  then have f: "forEach (parse_concept js api dl ml) (processed_concepts data) [] = Inr table"
    by (simp add: parseNVCBundle_def forEach_parse_entry)
  note keys = forEach_store_keys[where f="parse_concept js api dl ml" and entry="bilingual_entry js api dl ml"
      and key=concept_code, OF parse_concept_eq f]
  have e: "obj_keys ([] :: lookup_table) = []" by (simp add: obj_keys_def)
  show "set (obj_keys table)
        = {concept_code c |c e. e \<in> set (data_entry data)
                                \<and> isValueSet (vs_id (entry_resource e))
                                \<and> c \<in> set (valueset_concepts (entry_resource e))
                                \<and> concept_code c \<noteq> ''__proto__''}"
    using keys by (auto simp: e processed_concepts_set)
  show "distinct (obj_keys table)" using keys by (simp add: e)
  fix k r
  assume g: "obj_get table k = Some r"
  from parseNVCBundle_records[OF p g]
  show "\<exists>c e. e \<in> set (data_entry data) \<and> isValueSet (vs_id (entry_resource e))
                    \<and> c \<in> set (valueset_concepts (entry_resource e))
                    \<and> concept_code c = k \<and> bilingual_entry js api dl ml c = Inr r"
    by (auto simp: processed_concepts_set)
next
  assume "list_all (resolvable js api) (processed_concepts data)"
  then have "\<forall>c\<in>set (processed_concepts data). \<exists>r. bilingual_entry js api dl ml c = Inr r"
    by (auto simp: list_all_iff resolvable_entries)
  from forEach_store_returns[where f="parse_concept js api dl ml" and entry="bilingual_entry js api dl ml"
      and key=concept_code, OF parse_concept_eq this]
  show "\<exists>table. parseNVCBundle js api data dl ml = Inr table"
    by (simp add: parseNVCBundle_def forEach_parse_entry)
qed

theorem table_keys_are_recognised_codes_witness:
  "list_all (resolvable ascii ex_api) (processed_concepts ex_bundle)
   \<and> processed_concepts ex_bundle = [ex_alpha, ex_alpha_brand, ex_beta]
   \<and> (\<exists>table. parseNVCBundle ascii ex_api ex_bundle ex_disease_lookup [] = Inr table
         \<and> set (obj_keys table) = {''V001'', ''V002''})"
proof -
  have 1: "list_all (resolvable ascii ex_api) (processed_concepts ex_bundle)" by code_simp
  have 2: "processed_concepts ex_bundle = [ex_alpha, ex_alpha_brand, ex_beta]" by code_simp
  from table_keys_are_recognised_codes[of ascii ex_api ex_bundle ex_disease_lookup "[]"] 1
  obtain table where t: "parseNVCBundle ascii ex_api ex_bundle ex_disease_lookup [] = Inr table"
    by blast
  with table_keys_are_recognised_codes[of ascii ex_api ex_bundle ex_disease_lookup "[]"]
  have "set (obj_keys table)
        = {concept_code c |c e. e \<in> set (data_entry ex_bundle)
                                \<and> isValueSet (vs_id (entry_resource e))
                                \<and> c \<in> set (valueset_concepts (entry_resource e))
                                \<and> concept_code c \<noteq> ''__proto__''}"
    by blast
  also have "\<dots> = concept_code ` set (processed_concepts ex_bundle) - {''__proto__''}"
    by (auto simp: processed_concepts_set)
  also have "\<dots> = {''V001'', ''V002''}"
    unfolding 2 by (auto simp: ex_alpha_def ex_alpha_brand_def ex_beta_def)
  finally show ?thesis using 1 2 t by blast
qed

theorem concept_coded_proto_has_no_entry:
  "processed_concepts ex_bundle_proto = [ex_proto_generic, ex_alpha, ex_proto_brand]
   \<and> concept_code ex_proto_generic = ''__proto__''
   \<and> parseNVCBundle ascii ex_api ex_bundle_proto [] []
       = Inr [(''V001'', [(''displayEN'', JStr ''Vaccine Alpha''), (''displayFR'', JStr ''Vaccine A''),
                          (''diseaseEN'', JObjs []), (''diseaseFR'', JObjs [])])]"
proof -
  have "processed_concepts ex_bundle_proto = [ex_proto_generic, ex_alpha, ex_proto_brand]"
    by code_simp
  moreover have "concept_code ex_proto_generic = ''__proto__''"
    by (simp add: ex_proto_generic_def)
  moreover have "parseNVCBundle ascii ex_api ex_bundle_proto [] []
       = Inr [(''V001'', [(''displayEN'', JStr ''Vaccine Alpha''), (''displayFR'', JStr ''Vaccine A''),
                          (''diseaseEN'', JObjs []), (''diseaseFR'', JObjs [])])]"
    by code_simp
  ultimately show ?thesis by simp
qed

text \<open>
  C8, as amended. When the flattener returns a table, the record under a code other than
  \<^verbatim>\<open>__proto__\<close> is exactly the record of the last processed Concept with that code,
  whatever Concepts with the same code were processed before it; the table holds no
  record under \<^verbatim>\<open>__proto__\<close>, however many Concepts have that code. This holds in both
  variants, and a repeated code raises no error.
\<close>

theorem later_concept_replaces_earlier:
  assumes "processed_concepts data = before @ [c] @ after"
      and "concept_code c \<notin> concept_code ` set after"
  shows "(\<forall>table. parseNVCBundle js api data dl ml = Inr table \<and> concept_code c \<noteq> ''__proto__'' \<longrightarrow>
            (\<exists>r. bilingual_entry js api dl ml c = Inr r \<and> obj_get table (concept_code c) = Some r))
       \<and> (\<forall>table. parseNVCBundle_simple js data = Inr table \<and> concept_code c \<noteq> ''__proto__'' \<longrightarrow>
            (\<exists>r. simple_entry js c = Inr r \<and> obj_get table (concept_code c) = Some r))
       \<and> (\<forall>table. parseNVCBundle js api data dl ml = Inr table \<longrightarrow> obj_get table ''__proto__'' = None)
       \<and> (\<forall>table. parseNVCBundle_simple js data = Inr table \<longrightarrow> obj_get table ''__proto__'' = None)
       \<and> (list_all (resolvable js api) (processed_concepts data) \<longrightarrow>
            (\<exists>table. parseNVCBundle js api data dl ml = Inr table))
       \<and> (list_all (resolvable js simple_api) (processed_concepts data) \<longrightarrow>
            (\<exists>table. parseNVCBundle_simple js data = Inr table))"
proof (intro conjI allI impI)
  fix table
  assume a: "parseNVCBundle js api data dl ml = Inr table \<and> concept_code c \<noteq> ''__proto__''"
  then have "forEach (parse_concept js api dl ml) (before @ [c] @ after) [] = Inr table"
    by (simp add: parseNVCBundle_def forEach_parse_entry assms(1))
  from forEach_store_last[where f="parse_concept js api dl ml" and entry="bilingual_entry js api dl ml"
      and key=concept_code,
      OF parse_concept_eq this assms(2) conjunct2[OF a]]
  show "\<exists>r. bilingual_entry js api dl ml c = Inr r \<and> obj_get table (concept_code c) = Some r" .
next
  fix table
  assume a: "parseNVCBundle_simple js data = Inr table \<and> concept_code c \<noteq> ''__proto__''"
  then have "forEach (parse_concept_simple js) (before @ [c] @ after) [] = Inr table"
    by (simp add: parseNVCBundle_simple_def forEach_parse_entry assms(1))
  from forEach_store_last[where f="parse_concept_simple js" and entry="simple_entry js" and key=concept_code,
      OF parse_concept_simple_eq this assms(2) conjunct2[OF a]]
  show "\<exists>r. simple_entry js c = Inr r \<and> obj_get table (concept_code c) = Some r" .
next
  fix table
  assume "parseNVCBundle js api data dl ml = Inr table"
  then have "forEach (parse_concept js api dl ml) (processed_concepts data) [] = Inr table"
    by (simp add: parseNVCBundle_def forEach_parse_entry)
  from forEach_store_proto[where f="parse_concept js api dl ml" and entry="bilingual_entry js api dl ml"
      and key=concept_code, OF parse_concept_eq this]
  show "obj_get table ''__proto__'' = None" by (simp add: obj_get_def)
next
  fix table
  assume "parseNVCBundle_simple js data = Inr table"
  then have "forEach (parse_concept_simple js) (processed_concepts data) [] = Inr table"
    by (simp add: parseNVCBundle_simple_def forEach_parse_entry)
  from forEach_store_proto[where f="parse_concept_simple js" and entry="simple_entry js"
      and key=concept_code, OF parse_concept_simple_eq this]
  show "obj_get table ''__proto__'' = None" by (simp add: obj_get_def)
next
  assume "list_all (resolvable js api) (processed_concepts data)"
  then have "\<forall>c\<in>set (processed_concepts data). \<exists>r. bilingual_entry js api dl ml c = Inr r"
    by (auto simp: list_all_iff resolvable_entries)
  from forEach_store_returns[where f="parse_concept js api dl ml" and entry="bilingual_entry js api dl ml"
      and key=concept_code, OF parse_concept_eq this]
  show "\<exists>table. parseNVCBundle js api data dl ml = Inr table"
    by (simp add: parseNVCBundle_def forEach_parse_entry)
next
  assume "list_all (resolvable js simple_api) (processed_concepts data)"
  then have "\<forall>c\<in>set (processed_concepts data). \<exists>r. simple_entry js c = Inr r"
    by (auto simp: list_all_iff resolvable_simple_entries)
  from forEach_store_returns[where f="parse_concept_simple js" and entry="simple_entry js" and key=concept_code,
      OF parse_concept_simple_eq this]
  show "\<exists>table. parseNVCBundle_simple js data = Inr table"
    by (simp add: parseNVCBundle_simple_def forEach_parse_entry)
qed

theorem later_concept_replaces_earlier_witness:
  "processed_concepts ex_bundle = [ex_alpha] @ [ex_alpha_brand] @ [ex_beta]
   \<and> concept_code ex_alpha = concept_code ex_alpha_brand
   \<and> concept_code ex_alpha_brand \<notin> concept_code ` set [ex_beta]
   \<and> concept_code ex_alpha_brand \<noteq> ''__proto__''
   \<and> parseNVCBundle_simple ascii ex_bundle
       = Inr [(''V001'', [(''displayName'', JStr ''Vaccine A (brand)''),
                          (''MAH'', JObjs [[(''M1'', ''Pfizer (raw)'')]])]),
              (''V002'', [(''displayName'', JStr ''Vaccine B''),
                          (''disease'', JObjs [[(''D1'', ''Measles'')]]),
                          (''MAH'', JObjs [[(''M1'', ''Pfizer (raw)'')]])])]
   \<and> simple_entry ascii ex_alpha_brand
       = Inr [(''displayName'', JStr ''Vaccine A (brand)''), (''MAH'', JObjs [[(''M1'', ''Pfizer (raw)'')]])]
   \<and> (\<exists>table r. parseNVCBundle ascii ex_api ex_bundle ex_disease_lookup [] = Inr table
         \<and> bilingual_entry ascii ex_api ex_disease_lookup [] ex_alpha_brand = Inr r
         \<and> obj_get table ''V001'' = Some r)"
proof -
  have 1: "processed_concepts ex_bundle = [ex_alpha] @ [ex_alpha_brand] @ [ex_beta]" by code_simp
  have 2: "concept_code ex_alpha = concept_code ex_alpha_brand"
    by (simp add: ex_alpha_def ex_alpha_brand_def)
  have 3: "concept_code ex_alpha_brand \<notin> concept_code ` set [ex_beta]"
    by (simp add: ex_alpha_brand_def ex_beta_def)
  have 4: "parseNVCBundle_simple ascii ex_bundle
       = Inr [(''V001'', [(''displayName'', JStr ''Vaccine A (brand)''),
                          (''MAH'', JObjs [[(''M1'', ''Pfizer (raw)'')]])]),
              (''V002'', [(''displayName'', JStr ''Vaccine B''),
                          (''disease'', JObjs [[(''D1'', ''Measles'')]]),
                          (''MAH'', JObjs [[(''M1'', ''Pfizer (raw)'')]])])]"
    by code_simp
  have 5: "simple_entry ascii ex_alpha_brand
       = Inr [(''displayName'', JStr ''Vaccine A (brand)''), (''MAH'', JObjs [[(''M1'', ''Pfizer (raw)'')]])]"
    by code_simp
  have 6: "list_all (resolvable ascii ex_api) (processed_concepts ex_bundle)" by code_simp
  have 7: "concept_code ex_alpha_brand = ''V001''" by (simp add: ex_alpha_brand_def)
  have 8: "concept_code ex_alpha_brand \<noteq> ''__proto__''" by (simp add: ex_alpha_brand_def)
  note t = later_concept_replaces_earlier[OF 1 3, of ascii ex_api ex_disease_lookup "[]"]
  from t 6 obtain table where tab: "parseNVCBundle ascii ex_api ex_bundle ex_disease_lookup [] = Inr table"
    by blast
  with t 8 obtain r where "bilingual_entry ascii ex_api ex_disease_lookup [] ex_alpha_brand = Inr r"
    "obj_get table (concept_code ex_alpha_brand) = Some r" by blast
  with tab 7 have "\<exists>table r. parseNVCBundle ascii ex_api ex_bundle ex_disease_lookup [] = Inr table
         \<and> bilingual_entry ascii ex_api ex_disease_lookup [] ex_alpha_brand = Inr r
         \<and> obj_get table ''V001'' = Some r" by auto
  with 1 2 3 4 5 8 show ?thesis by blast
qed

theorem repeated_proto_code_leaves_no_record:
  "processed_concepts ex_bundle_proto = [ex_proto_generic] @ [ex_alpha] @ [ex_proto_brand]
   \<and> concept_code ex_proto_generic = concept_code ex_proto_brand
   \<and> simple_entry ascii ex_proto_brand = Inr [(''displayName'', JStr ''Vaccine P (brand)'')]
   \<and> parseNVCBundle_simple ascii ex_bundle_proto
       = Inr [(''V001'', [(''displayName'', JStr ''Vaccine A'')])]
   \<and> obj_get [(''V001'', [(''displayName'', JStr ''Vaccine A'')])] (concept_code ex_proto_brand)
       = None"
proof -
  have "processed_concepts ex_bundle_proto = [ex_proto_generic] @ [ex_alpha] @ [ex_proto_brand]"
    by code_simp
  moreover have "concept_code ex_proto_generic = concept_code ex_proto_brand"
    by (simp add: ex_proto_generic_def ex_proto_brand_def)
  moreover have "simple_entry ascii ex_proto_brand = Inr [(''displayName'', JStr ''Vaccine P (brand)'')]"
    by code_simp
  moreover have "parseNVCBundle_simple ascii ex_bundle_proto
       = Inr [(''V001'', [(''displayName'', JStr ''Vaccine A'')])]"
    by code_simp
  moreover have "obj_get [(''V001'', [(''displayName'', JStr ''Vaccine A'')])] (concept_code ex_proto_brand)
       = None"
    by (simp add: obj_get_def ex_proto_brand_def)
  ultimately show ?thesis by simp
qed

section \<open>Properties of the runs\<close>

lemma paths_distinct:
  "disease_path \<noteq> bundle_path" "disease_path \<noteq> version_path" "disease_path \<noteq> mah_path"
  "mah_path \<noteq> bundle_path" "mah_path \<noteq> version_path" "bundle_path \<noteq> version_path"
  "mah_path \<noteq> disease_path"
  by (simp_all add: disease_path_def bundle_path_def version_path_def mah_path_def)

lemma write_resources_cases:
  assumes "write_resources dR mR (fs, log) = (fs2, log2, failed)"
  shows "nvc_bundle_json fs2 = nvc_bundle_json fs \<and> nvc_version_json fs2 = nvc_version_json fs
       \<and> (\<exists>ws. log2 = log @ ws \<and> set ws \<subseteq> {Wrote disease_path, Wrote mah_path}
               \<and> (dR = None \<longrightarrow> Wrote disease_path \<notin> set ws)
               \<and> (mR = None \<longrightarrow> Wrote mah_path \<notin> set ws))
       \<and> (dR = None \<longrightarrow> disease_json fs2 = disease_json fs)
       \<and> (mR = None \<longrightarrow> mah_json fs2 = mah_json fs)
       \<and> (\<forall>vs. dR = Some vs \<and> vs_compose vs \<noteq> Absent \<longrightarrow>
              disease_json fs2 = Stored (vs_compose vs) \<and> Wrote disease_path \<in> set log2)"
  using assms
  by (auto simp: write_resources_def compose_text_def paths_distinct
           split: option.splits sum.splits jsfield.splits)

lemma mah_name_raw: "mah_name lang [] MAH = raw_mah_display MAH"
  by (auto simp: mah_name_def raw_mah_display_def obj_keys_def obj_get_def or_else_def
           split: list.splits)

lemma bilingual_entry_without_lookup:
  assumes "getExtensionValueByUrl js c (mah_url api) = Inr MAH"
      and "bilingual_entry js api dl [] c = Inr r"
  shows "if raw_mah_display MAH = []
         then ''MAHEN'' \<notin> set (obj_keys r) \<and> ''MAHFR'' \<notin> set (obj_keys r)
         else obj_get r ''MAHEN'' = Some (JStr (raw_mah_display MAH))
              \<and> obj_get r ''MAHFR'' = Some (JStr (raw_mah_display MAH))"
  using assms
  by (auto simp: bilingual_entry_def mah_name_raw obj_keys_def obj_get_def split: sum.splits)

section \<open>The claims about the runs\<close>



lemma write_resources_no_disease:
  "write_resources None mR (fs, log) =
     (case mR of
        None \<Rightarrow> (fs, log, None)
      | Some vs \<Rightarrow>
          (case vs_compose vs of
             Absent \<Rightarrow> (fs, log, Some TypeError)
           | c \<Rightarrow> (fs\<lparr>mah_json := Stored c\<rparr>, log @ [Wrote mah_path], None)))"
  by (simp add: write_resources_def compose_text_def split: option.splits jsfield.splits)

lemma write_resources_no_mah:
  "write_resources dR None (fs, log) =
     (case dR of
        None \<Rightarrow> (fs, log, None)
      | Some vs \<Rightarrow>
          (case vs_compose vs of
             Absent \<Rightarrow> (fs, log, Some TypeError)
           | c \<Rightarrow> (fs\<lparr>disease_json := Stored c\<rparr>, log @ [Wrote disease_path], None)))"
  by (simp add: write_resources_def compose_text_def split: option.splits jsfield.splits)

text \<open>
  C10. In the bilingual variant the disease lookup is built from the contents of
  \<^verbatim>\<open>vaccine-table/disease.json\<close> as the file stands after the first stage of the run:
  a table that the run writes was computed with the lookup of those contents, and when
  they cannot be read and turned into a lookup (no file and unparseable text among the
  cases) the run ends with a logged error, \<^verbatim>\<open>nvc-bundle.json\<close> and the version marker
  unwritten and unchanged. The file is rewritten, from the Disease resource's
  \<^verbatim>\<open>compose\<close>, when the Bundle has a Disease resource; without one it is not written,
  so the lookup comes from the contents a previous run left, or the run fails.
\<close>

theorem disease_lookup_comes_from_file:
  "(Wrote bundle_path \<in> set (snd (main js api (Inr data) fs)) \<longrightarrow>
      (\<exists>dl ml table.
          build_lookup (disease_json (fst (main js api (Inr data) fs))) = Inr dl
          \<and> parseNVCBundle js api data dl ml = Inr table
          \<and> nvc_bundle_json (fst (main js api (Inr data) fs)) = Stored (data_versionId data, table)))
   \<and> (\<forall>e. build_lookup (disease_json (fst (main js api (Inr data) fs))) = Inl e \<longrightarrow>
          nvc_bundle_json (fst (main js api (Inr data) fs)) = nvc_bundle_json fs
          \<and> nvc_version_json (fst (main js api (Inr data) fs)) = nvc_version_json fs
          \<and> Wrote bundle_path \<notin> set (snd (main js api (Inr data) fs))
          \<and> Wrote version_path \<notin> set (snd (main js api (Inr data) fs))
          \<and> (\<exists>e'. last (snd (main js api (Inr data) fs)) = ErrorMessage e'))
   \<and> (find_resource isValueSetDisease (data_entry data) = None \<longrightarrow>
          disease_json (fst (main js api (Inr data) fs)) = disease_json fs
          \<and> Wrote disease_path \<notin> set (snd (main js api (Inr data) fs)))
   \<and> (\<forall>vs. find_resource isValueSetDisease (data_entry data) = Some vs
            \<and> vs_compose vs \<noteq> Absent \<longrightarrow>
          disease_json (fst (main js api (Inr data) fs)) = Stored (vs_compose vs)
          \<and> Wrote disease_path \<in> set (snd (main js api (Inr data) fs)))
   \<and> build_lookup Missing = Inl IOError
   \<and> build_lookup Unparseable = Inl SyntaxError"
proof -
  let ?dR = "find_resource isValueSetDisease (data_entry data)"
  let ?mR = "find_resource isValueSetMAH (data_entry data)"
  let ?log0 = "[ReceivedResourceIds (map (\<lambda>entry. vs_id (entry_resource entry)) (data_entry data))]"
  let ?run = "main js api (Inr data) fs"
  obtain fs2 log2 failed where w: "write_resources ?dR ?mR (fs, ?log0) = (fs2, log2, failed)"
    by (cases "write_resources ?dR ?mR (fs, ?log0)") auto
  note wc = write_resources_cases[OF w]
  from wc obtain ws where ws: "log2 = ?log0 @ ws" "set ws \<subseteq> {Wrote disease_path, Wrote mah_path}"
    "?dR = None \<longrightarrow> Wrote disease_path \<notin> set ws" by auto
  from wc have same: "nvc_bundle_json fs2 = nvc_bundle_json fs"
    "nvc_version_json fs2 = nvc_version_json fs" by auto
  have nb: "Wrote bundle_path \<notin> set log2" "Wrote version_path \<notin> set log2"
    using ws(1,2) paths_distinct by auto
  obtain ml mahLog where m: "build_mah_lookup ?mR fs2 = (ml, mahLog)"
    by (cases "build_mah_lookup ?mR fs2") auto
  then have mahlog: "set mahLog \<subseteq> range ErrorReadingMAH"
    by (auto simp: build_mah_lookup_def split: option.splits sum.splits)
  have run: "?run =
     (case failed of
        Some e \<Rightarrow> (fs2, log2 @ [ErrorMessage e])
      | None \<Rightarrow>
          (case build_lookup (disease_json fs2) of
             Inl e \<Rightarrow> (fs2, log2 @ [ErrorMessage e])
           | Inr dl \<Rightarrow>
               (case parseNVCBundle js api data dl ml of
                  Inl e \<Rightarrow> (fs2, log2 @ mahLog @ [ErrorMessage e])
                | Inr table \<Rightarrow>
                    (fs2\<lparr>nvc_bundle_json := Stored (data_versionId data, table),
                         nvc_version_json := Stored (Some (data_versionId data))\<rparr>,
                     log2 @ mahLog @ [Wrote bundle_path, Wrote version_path,
                                      SuccessfullyUpdated (data_versionId data)]))))"
    by (simp add: main_def w m Let_def split: option.splits sum.splits)
  have dj: "disease_json (fst ?run) = disease_json fs2"
    by (simp add: run split: option.splits sum.splits)
  have 1: "Wrote bundle_path \<in> set (snd ?run) \<longrightarrow>
      (\<exists>dl ml table.
          build_lookup (disease_json (fst ?run)) = Inr dl
          \<and> parseNVCBundle js api data dl ml = Inr table
          \<and> nvc_bundle_json (fst ?run) = Stored (data_versionId data, table))"
    unfolding dj using nb mahlog by (auto simp: run split: option.splits sum.splits)
  have 2: "build_lookup (disease_json (fst ?run)) = Inl e \<longrightarrow>
          nvc_bundle_json (fst ?run) = nvc_bundle_json fs
          \<and> nvc_version_json (fst ?run) = nvc_version_json fs
          \<and> Wrote bundle_path \<notin> set (snd ?run)
          \<and> Wrote version_path \<notin> set (snd ?run)
          \<and> (\<exists>e'. last (snd ?run) = ErrorMessage e')" for e
    unfolding dj using nb same by (auto simp: run split: option.splits)
  have 3: "?dR = None \<longrightarrow>
          disease_json (fst ?run) = disease_json fs \<and> Wrote disease_path \<notin> set (snd ?run)"
    unfolding dj using wc ws mahlog paths_distinct
    by (auto simp: run split: option.splits sum.splits)
  have 4: "?dR = Some vs \<and> vs_compose vs \<noteq> Absent \<longrightarrow>
          disease_json (fst ?run) = Stored (vs_compose vs) \<and> Wrote disease_path \<in> set (snd ?run)"
    for vs
    unfolding dj using wc by (auto simp: run split: option.splits sum.splits)
  have 5: "build_lookup Missing = Inl IOError" "build_lookup Unparseable = Inl SyntaxError"
    by (simp_all add: build_lookup_def)
  from 1 2 3 4 5 show ?thesis by blast
qed

theorem disease_lookup_comes_from_file_witness:
  "find_resource isValueSetDisease (data_entry ex_bundle_no_disease) = None
   \<and> build_lookup (disease_json ex_no_files) = Inl IOError
   \<and> main ascii ex_api (Inr ex_bundle_no_disease) ex_no_files
       = (ex_no_files, [ReceivedResourceIds [''Tradename''], ErrorMessage IOError])
   \<and> nvc_bundle_json (fst (main ascii ex_api (Inr ex_bundle_no_disease) ex_no_files)) = Missing
   \<and> Wrote bundle_path \<notin> set (snd (main ascii ex_api (Inr ex_bundle_no_disease) ex_no_files))
   \<and> build_lookup (Stored (Present ex_disease_compose)) = Inr ex_disease_lookup
   \<and> main ascii ex_api (Inr ex_bundle_no_disease)
          (ex_no_files\<lparr>disease_json := Stored (Present ex_disease_compose)\<rparr>)
       = (ex_no_files\<lparr>disease_json := Stored (Present ex_disease_compose),
                      nvc_bundle_json := Stored (''2024-02'',
                         [(''V002'', [(''displayEN'', JStr ''Vaccine B''), (''displayFR'', JStr ''Vaccine B''),
                                      (''diseaseEN'', JObjs [[(''D1'', ''Measles'')]]),
                                      (''diseaseFR'', JObjs [[(''D1'', ''Rougeole'')]]),
                                      (''MAHEN'', JStr ''Pfizer (raw)''),
                                      (''MAHFR'', JStr ''Pfizer (raw)'')])]),
                      nvc_version_json := Stored (Some ''2024-02'')\<rparr>,
          [ReceivedResourceIds [''Tradename''], Wrote bundle_path, Wrote version_path,
           SuccessfullyUpdated ''2024-02''])"
proof -
  have 1: "find_resource isValueSetDisease (data_entry ex_bundle_no_disease) = None"
    by code_simp
  have 2: "build_lookup (disease_json ex_no_files) = Inl IOError"
    by (simp add: build_lookup_def ex_no_files_def)
  have 3: "main ascii ex_api (Inr ex_bundle_no_disease) ex_no_files
       = (ex_no_files, [ReceivedResourceIds [''Tradename''], ErrorMessage IOError])"
    by code_simp
  have m: "nvc_bundle_json ex_no_files = Missing" by (simp add: ex_no_files_def)
  have d: "disease_json ex_no_files = Missing" by (simp add: ex_no_files_def)
  note t = disease_lookup_comes_from_file[of ascii ex_api ex_bundle_no_disease ex_no_files]
  from t 1 have "disease_json (fst (main ascii ex_api (Inr ex_bundle_no_disease) ex_no_files)) = Missing"
    using d by simp
  moreover from t have "build_lookup Missing = Inl IOError" by blast
  ultimately have 4: "nvc_bundle_json (fst (main ascii ex_api (Inr ex_bundle_no_disease) ex_no_files))
             = nvc_bundle_json ex_no_files
           \<and> Wrote bundle_path \<notin> set (snd (main ascii ex_api (Inr ex_bundle_no_disease) ex_no_files))"
    using t by metis
  have 5: "build_lookup (Stored (Present ex_disease_compose)) = Inr ex_disease_lookup"
    by code_simp
  have 6: "main ascii ex_api (Inr ex_bundle_no_disease)
          (ex_no_files\<lparr>disease_json := Stored (Present ex_disease_compose)\<rparr>)
       = (ex_no_files\<lparr>disease_json := Stored (Present ex_disease_compose),
                      nvc_bundle_json := Stored (''2024-02'',
                         [(''V002'', [(''displayEN'', JStr ''Vaccine B''), (''displayFR'', JStr ''Vaccine B''),
                                      (''diseaseEN'', JObjs [[(''D1'', ''Measles'')]]),
                                      (''diseaseFR'', JObjs [[(''D1'', ''Rougeole'')]]),
                                      (''MAHEN'', JStr ''Pfizer (raw)''),
                                      (''MAHFR'', JStr ''Pfizer (raw)'')])]),
                      nvc_version_json := Stored (Some ''2024-02'')\<rparr>,
          [ReceivedResourceIds [''Tradename''], Wrote bundle_path, Wrote version_path,
           SuccessfullyUpdated ''2024-02''])"
    by code_simp
  from 1 2 3 4 5 6 m show ?thesis by simp
qed

text \<open>
  C3, as amended. Without a MarketAuthorizationHolder resource in the Bundle the
  bilingual variant builds an empty MAH lookup, leaves \<^verbatim>\<open>mah.json\<close> alone and logs no
  MAH error; when the Disease files and the flattener raise nothing, the run ends with
  both output files written. A table the run writes was computed with the empty MAH
  lookup, and each of its records is the record of a Concept with the record's code,
  whose own MAH extension decides the MAH fields: the record omits \<open>MAHEN\<close> and
  \<open>MAHFR\<close> when the extension did not resolve (or the display of its first code is
  empty), and otherwise carries that raw display in both.
\<close>

theorem mah_absence:
  "find_resource isValueSetMAH (data_entry data) = None \<longrightarrow>
     build_mah_lookup (find_resource isValueSetMAH (data_entry data)) fs' = ([], [])
     \<and> mah_json (fst (main js api (Inr data) fs)) = mah_json fs
     \<and> Wrote mah_path \<notin> set (snd (main js api (Inr data) fs))
     \<and> (\<forall>e. ErrorReadingMAH e \<notin> set (snd (main js api (Inr data) fs)))
     \<and> (\<forall>dl table.
           (case find_resource isValueSetDisease (data_entry data) of
              None \<Rightarrow> build_lookup (disease_json fs) = Inr dl
            | Some vs \<Rightarrow> vs_compose vs \<noteq> Absent \<and> build_lookup (Stored (vs_compose vs)) = Inr dl)
           \<and> parseNVCBundle js api data dl [] = Inr table \<longrightarrow>
           nvc_bundle_json (fst (main js api (Inr data) fs)) = Stored (data_versionId data, table)
           \<and> nvc_version_json (fst (main js api (Inr data) fs)) = Stored (Some (data_versionId data))
           \<and> last (snd (main js api (Inr data) fs)) = SuccessfullyUpdated (data_versionId data))
     \<and> (Wrote bundle_path \<in> set (snd (main js api (Inr data) fs)) \<longrightarrow>
           (\<exists>dl table. parseNVCBundle js api data dl [] = Inr table
              \<and> nvc_bundle_json (fst (main js api (Inr data) fs)) = Stored (data_versionId data, table)
              \<and> (\<forall>k r. obj_get table k = Some r \<longrightarrow>
                    (\<exists>c MAH. c \<in> set (processed_concepts data) \<and> concept_code c = k
                       \<and> bilingual_entry js api dl [] c = Inr r
                       \<and> getExtensionValueByUrl js c (mah_url api) = Inr MAH
                       \<and> (if raw_mah_display MAH = []
                           then ''MAHEN'' \<notin> set (obj_keys r) \<and> ''MAHFR'' \<notin> set (obj_keys r)
                           else obj_get r ''MAHEN'' = Some (JStr (raw_mah_display MAH))
                                \<and> obj_get r ''MAHFR'' = Some (JStr (raw_mah_display MAH)))))))"
proof (intro impI conjI allI)
  assume none: "find_resource isValueSetMAH (data_entry data) = None"
  let ?dR = "find_resource isValueSetDisease (data_entry data)"
  let ?log0 = "[ReceivedResourceIds (map (\<lambda>entry. vs_id (entry_resource entry)) (data_entry data))]"
  let ?run = "main js api (Inr data) fs"
  obtain fs2 log2 failed where w: "write_resources ?dR None (fs, ?log0) = (fs2, log2, failed)"
    by (cases "write_resources ?dR None (fs, ?log0)") auto
  note wc = write_resources_cases[OF w]
  from wc obtain ws where ws: "log2 = ?log0 @ ws" "set ws \<subseteq> {Wrote disease_path, Wrote mah_path}"
    "Wrote mah_path \<notin> set ws" by auto
  from wc have same: "mah_json fs2 = mah_json fs" by auto
  have nm: "Wrote mah_path \<notin> set log2" using ws(1,3) by auto
  have nb: "Wrote bundle_path \<notin> set log2" using ws(1,2) paths_distinct by auto
  have ne: "ErrorReadingMAH e \<notin> set log2" for e using ws(1,2) by auto
  have lookup: "build_mah_lookup None fs2 = ([], [])" by (simp add: build_mah_lookup_def)
  show "build_mah_lookup (find_resource isValueSetMAH (data_entry data)) fs' = ([], [])"
    by (simp add: none build_mah_lookup_def)
  show "mah_json (fst ?run) = mah_json fs"
    using same by (auto simp: main_def none w lookup Let_def split: option.splits sum.splits)
  show "Wrote mah_path \<notin> set (snd ?run)"
    using nm paths_distinct
    by (auto simp: main_def none w lookup Let_def split: option.splits sum.splits)
  show "ErrorReadingMAH e \<notin> set (snd ?run)" for e
    using ne by (auto simp: main_def none w lookup Let_def split: option.splits sum.splits)
  { fix dl table
    assume ok: "(case ?dR of
              None \<Rightarrow> build_lookup (disease_json fs) = Inr dl
            | Some vs \<Rightarrow> vs_compose vs \<noteq> Absent \<and> build_lookup (Stored (vs_compose vs)) = Inr dl)
           \<and> parseNVCBundle js api data dl [] = Inr table"
    then have "failed = None \<and> build_lookup (disease_json fs2) = Inr dl"
      using w by (auto simp: write_resources_no_mah split: option.splits jsfield.splits)
    with ok have run: "?run =
        (fs2\<lparr>nvc_bundle_json := Stored (data_versionId data, table),
             nvc_version_json := Stored (Some (data_versionId data))\<rparr>,
         log2 @ [Wrote bundle_path, Wrote version_path, SuccessfullyUpdated (data_versionId data)])"
      by (simp add: main_def none w lookup Let_def)
    show "nvc_bundle_json (fst ?run) = Stored (data_versionId data, table)"
      by (simp add: run)
    show "nvc_version_json (fst ?run) = Stored (Some (data_versionId data))"
      by (simp add: run)
    show "last (snd ?run) = SuccessfullyUpdated (data_versionId data)"
      by (simp add: run)
  }
  assume wrote: "Wrote bundle_path \<in> set (snd ?run)"
  then obtain dl table where t: "parseNVCBundle js api data dl [] = Inr table"
    "nvc_bundle_json (fst ?run) = Stored (data_versionId data, table)"
    using nb by (auto simp: main_def none w lookup Let_def split: option.splits sum.splits)
  have "\<exists>c MAH. c \<in> set (processed_concepts data) \<and> concept_code c = k
                       \<and> bilingual_entry js api dl [] c = Inr r
                       \<and> getExtensionValueByUrl js c (mah_url api) = Inr MAH
                       \<and> (if raw_mah_display MAH = []
                           then ''MAHEN'' \<notin> set (obj_keys r) \<and> ''MAHFR'' \<notin> set (obj_keys r)
                           else obj_get r ''MAHEN'' = Some (JStr (raw_mah_display MAH))
                                \<and> obj_get r ''MAHFR'' = Some (JStr (raw_mah_display MAH)))"
    if g: "obj_get table k = Some r" for k r
  proof -
    from parseNVCBundle_records[OF t(1) g] obtain c where c: "c \<in> set (processed_concepts data)"
      "concept_code c = k" "bilingual_entry js api dl [] c = Inr r" by blast
    from c(3) obtain MAH where m: "getExtensionValueByUrl js c (mah_url api) = Inr MAH"
      by (auto simp: bilingual_entry_def split: sum.splits)
    from bilingual_entry_without_lookup[OF m c(3)] c(1,2,3) m show ?thesis by blast
  qed
  with t show "\<exists>dl table. parseNVCBundle js api data dl [] = Inr table
              \<and> nvc_bundle_json (fst ?run) = Stored (data_versionId data, table)
              \<and> (\<forall>k r. obj_get table k = Some r \<longrightarrow>
                    (\<exists>c MAH. c \<in> set (processed_concepts data) \<and> concept_code c = k
                       \<and> bilingual_entry js api dl [] c = Inr r
                       \<and> getExtensionValueByUrl js c (mah_url api) = Inr MAH
                       \<and> (if raw_mah_display MAH = []
                           then ''MAHEN'' \<notin> set (obj_keys r) \<and> ''MAHFR'' \<notin> set (obj_keys r)
                           else obj_get r ''MAHEN'' = Some (JStr (raw_mah_display MAH))
                                \<and> obj_get r ''MAHFR'' = Some (JStr (raw_mah_display MAH)))))"
    by blast
qed

theorem mah_absence_witness:
  "find_resource isValueSetMAH (data_entry ex_bundle) = None
   \<and> find_resource isValueSetDisease (data_entry ex_bundle)
       = Some (ValueSet ''Disease'' (Present ex_disease_compose))
   \<and> build_lookup (Stored (Present ex_disease_compose)) = Inr ex_disease_lookup
   \<and> parseNVCBundle ascii ex_api ex_bundle ex_disease_lookup [] = Inr ex_table
   \<and> nvc_bundle_json (fst (main ascii ex_api (Inr ex_bundle) ex_no_files)) = Stored (''2024-01'', ex_table)
   \<and> last (snd (main ascii ex_api (Inr ex_bundle) ex_no_files)) = SuccessfullyUpdated ''2024-01''
   \<and> mah_json (fst (main ascii ex_api (Inr ex_bundle) ex_no_files)) = Missing"
proof -
  have 1: "find_resource isValueSetMAH (data_entry ex_bundle) = None" by code_simp
  have 2: "find_resource isValueSetDisease (data_entry ex_bundle)
       = Some (ValueSet ''Disease'' (Present ex_disease_compose))" by code_simp
  have 3: "build_lookup (Stored (Present ex_disease_compose)) = Inr ex_disease_lookup"
    by code_simp
  have 4: "parseNVCBundle ascii ex_api ex_bundle ex_disease_lookup [] = Inr ex_table" by code_simp
  have v: "data_versionId ex_bundle = ''2024-01''" by (simp add: ex_bundle_def)
  have m: "mah_json ex_no_files = Missing" by (simp add: ex_no_files_def)
  have pre: "(case find_resource isValueSetDisease (data_entry ex_bundle) of
              None \<Rightarrow> build_lookup (disease_json ex_no_files) = Inr ex_disease_lookup
            | Some vs \<Rightarrow> vs_compose vs \<noteq> Absent
                         \<and> build_lookup (Stored (vs_compose vs)) = Inr ex_disease_lookup)
           \<and> parseNVCBundle ascii ex_api ex_bundle ex_disease_lookup [] = Inr ex_table"
    by (simp add: 2 3 4)
  from mah_absence[of ex_bundle ex_no_files ascii ex_api ex_no_files] 1 pre
  have "nvc_bundle_json (fst (main ascii ex_api (Inr ex_bundle) ex_no_files))
          = Stored (data_versionId ex_bundle, ex_table)
        \<and> last (snd (main ascii ex_api (Inr ex_bundle) ex_no_files))
          = SuccessfullyUpdated (data_versionId ex_bundle)
        \<and> mah_json (fst (main ascii ex_api (Inr ex_bundle) ex_no_files)) = mah_json ex_no_files"
    by blast
  with 1 2 3 4 show ?thesis by (simp add: v m)
qed

theorem mah_fields_without_mah_resource:
  "find_resource isValueSetMAH (data_entry ex_bundle) = None
   \<and> nvc_bundle_json (fst (main ascii ex_api (Inr ex_bundle) ex_no_files)) = Stored (''2024-01'', ex_table)
   \<and> obj_get ex_table ''V001''
       = Some [(''displayEN'', JStr ''Vaccine A (brand)''), (''displayFR'', JStr ''Vaccine A (brand)''),
               (''diseaseEN'', JObjs []), (''diseaseFR'', JObjs []),
               (''MAHEN'', JStr ''Pfizer (raw)''), (''MAHFR'', JStr ''Pfizer (raw)'')]"
proof -
  have "find_resource isValueSetMAH (data_entry ex_bundle) = None" by code_simp
  moreover have "nvc_bundle_json (fst (main ascii ex_api (Inr ex_bundle) ex_no_files))
      = Stored (''2024-01'', ex_table)" by code_simp
  moreover have "obj_get ex_table ''V001''
       = Some [(''displayEN'', JStr ''Vaccine A (brand)''), (''displayFR'', JStr ''Vaccine A (brand)''),
               (''diseaseEN'', JObjs []), (''diseaseFR'', JObjs []),
               (''MAHEN'', JStr ''Pfizer (raw)''), (''MAHFR'', JStr ''Pfizer (raw)'')]"
    by (simp add: obj_get_def ex_table_def)
  ultimately show ?thesis by simp
qed

end
